theory Spec2Isabelle
  imports Main "HOL-Library.Word"
begin

unbundle bit_operations_syntax

section \<open>Python values, exceptions and the transport\<close>

text \<open>
  The module \<^verbatim>\<open>aiomysql/connection.py\<close> is embedded function by function. A byte string
  is a list of 8-bit words, a Python \<^verbatim>\<open>str\<close> is the list of its code points, and every
  coroutine is a function from the state it mutates to an outcome paired with the state it
  leaves behind: an exception does not undo the assignments made before it was raised.
\<close>

type_synonym byte = "8 word"
type_synonym bytes = "byte list"
type_synonym pystr = "nat list"

definition str :: "string \<Rightarrow> pystr" where
  "str s = map of_char s"

datatype error =
    InterfaceError
  | OperationalError nat
  | Error
  | ServerError bytes
  | ValueError
  | AttributeError
  | UnboundLocalError
  | StructError
  | IncompleteReadError
  | OSError
  | UnicodeError
  | LookupError
  | KeyError
  | TypeError
  | AssertionError
  | ConverterError

text \<open>
  \<open>InterfaceError\<close> is \<^verbatim>\<open>InterfaceError("(0, 'Not connected')")\<close>, \<open>OperationalError n\<close> is
  \<^verbatim>\<open>OperationalError(n, message)\<close>, \<open>Error\<close> is \<^verbatim>\<open>Error("Already closed")\<close>, and
  \<open>ServerError data\<close> is what \<^verbatim>\<open>check_error\<close> raises for an error packet. Messages are left out.
\<close>

datatype pyval = PyNone | PyBytes bytes | PyStr pystr | PyInt int | PyBool bool

datatype strbytes = Str pystr | Bytes bytes

text \<open>
  What asyncio did on behalf of the connection, in order: a stream pair was opened,
  \<^verbatim>\<open>readexactly\<close> returned bytes, \<^verbatim>\<open>write\<close> was called, the transport was closed.
\<close>

datatype io_event = Opened | Recv bytes | Send bytes | Closed

text \<open>
  A \<^verbatim>\<open>StreamReader\<close>: the bytes the peer sends before the stream ends, and whether it ends
  by a connection error (\<^verbatim>\<open>OSError\<close>) or by a clean end of file.
\<close>

record stream_reader =
  buffer :: bytes
  broken :: bool

datatype stream_writer = StreamWriter


section \<open>What the module imports\<close>

text \<open>
  The module imports its packet classes, constants, character-set table, converters and
  password scrambles from the pymysql package, and uses Python's codecs; none of them is
  defined in this repository. They are parameters of the embedding: every function below
  takes a record of them, and no theorem assumes more of them than it states.
\<close>

record charset =
  charset_id :: nat
  charset_name :: pystr
  charset_encoding :: pystr
  is_binary :: bool

record field =
  name :: pystr
  table_name :: pystr
  type_code :: nat
  charsetnr :: nat
  column_length :: nat
  scale :: nat
  flags :: nat

record ok_packet =
  ok_affected_rows :: nat
  ok_insert_id :: nat
  ok_server_status :: nat
  ok_warning_count :: nat
  ok_message :: bytes
  ok_has_next :: bool

record eof_packet =
  eof_warning_count :: nat
  eof_has_next :: bool

record library =
  TEXT_TYPES :: "nat list"
  CAPABILITIES :: nat
  MULTI_STATEMENTS :: nat
  MULTI_RESULTS :: nat
  CONNECT_WITH_DB :: nat
  SERVER_STATUS_AUTOCOMMIT :: nat
  DEFAULT_CHARSET :: pystr
  DEFAULT_USER :: pystr
  sys_platform :: pystr
  config_get :: "pystr \<Rightarrow> pystr \<Rightarrow> string \<Rightarrow> pystr option"
  int_of_str :: "pystr \<Rightarrow> int option"
  charset_by_name :: "pystr \<Rightarrow> charset option"
  charset_by_id :: "nat \<Rightarrow> charset option"
  check_error :: "bytes \<Rightarrow> error option"
  is_ok_packet :: "bytes \<Rightarrow> bool"
  is_eof_packet :: "bytes \<Rightarrow> bool"
  OKPacketWrapper :: "bytes \<Rightarrow> error + ok_packet"
  EOFPacketWrapper :: "bytes \<Rightarrow> error + eof_packet"
  FieldDescriptorPacket :: "bytes \<Rightarrow> pystr \<Rightarrow> error + field"
  description :: "field \<Rightarrow> pyval list"
  read_length_encoded_integer :: "bytes \<Rightarrow> error + nat option"
  read_length_coded_string :: "bytes \<Rightarrow> nat \<Rightarrow> error + (bytes option \<times> nat)"
  scramble :: "bytes \<Rightarrow> bytes \<Rightarrow> bytes"
  scramble_323 :: "bytes \<Rightarrow> bytes \<Rightarrow> bytes"
  escape_item :: "pyval \<Rightarrow> pystr \<Rightarrow> pystr"
  encode :: "pystr \<Rightarrow> pystr \<Rightarrow> error + bytes"
  decode :: "pystr \<Rightarrow> bytes \<Rightarrow> error + pystr"

text \<open>
  A packet object is its data and a read position; \<open>read_length_coded_string data pos\<close>
  returns the column value (\<open>None\<close> for SQL NULL) and the position after it, and
  \<open>read_length_encoded_integer data\<close> the integer at the start of a packet (\<open>None\<close> for the
  NULL marker).
  \<open>encode\<close> and \<open>decode\<close> are \<^verbatim>\<open>str.encode\<close> and \<^verbatim>\<open>bytes.decode\<close>, by codec name.
  \<open>DEFAULT_USER\<close> is what \<^verbatim>\<open>getpass.getuser()\<close> returned when the module was loaded,
  \<open>config_get file group key\<close> is the configuration file's value for a key (\<open>None\<close> when
  reading it raises), and \<open>int_of_str\<close> is \<^verbatim>\<open>int\<close> on a string (\<open>None\<close> for \<^verbatim>\<open>ValueError\<close>).

  Modelled from the spec: the maximum frame size, which the module imports as
  \<^verbatim>\<open>MAX_PACKET_LEN\<close>, is 0xFFFFFF (16,777,215) bytes.
\<close>

definition MAX_PACKET_LEN :: nat where
  "MAX_PACKET_LEN = 16777215"

text \<open>The command codes the module uses, as the spec lists them.\<close>

definition COM_QUIT :: byte where "COM_QUIT = 0x01"
definition COM_INIT_DB :: byte where "COM_INIT_DB = 0x02"
definition COM_QUERY :: byte where "COM_QUERY = 0x03"
definition COM_PROCESS_KILL :: byte where "COM_PROCESS_KILL = 0x0C"
definition COM_PING :: byte where "COM_PING = 0x0E"

section \<open>The two classes\<close>

text \<open>
  \<^verbatim>\<open>MySQLResult\<close>. Its \<^verbatim>\<open>connection\<close> attribute is a back-reference to the one Connection
  that created it, or \<^verbatim>\<open>None\<close>; the functions of the class take the Connection's state as
  a second argument. \<^verbatim>\<open>__init__\<close> does not assign \<^verbatim>\<open>fields\<close>: \<open>result_fields r = None\<close>
  says the attribute does not exist yet, and reading it raises \<^verbatim>\<open>AttributeError\<close>
  (\<open>fields\<close> and \<open>description\<close> are renamed, the record package and the field descriptor
  having taken the names).
\<close>

datatype conn_ref = ConnRef

type_synonym row = "pyval list"

record MySQLResult =
  connection :: "conn_ref option"
  affected_rows :: "nat option"
  insert_id :: "nat option"
  server_status :: "nat option"
  warning_count :: nat
  message :: "bytes option"
  field_count :: "nat option"
  result_description :: "pyval list list option"
  rows :: "row list option"
  has_next :: "bool option"
  unbuffered_active :: bool
  result_fields :: "field list option"

definition MySQLResult_init :: MySQLResult where
  "MySQLResult_init = \<lparr>
     connection = Some ConnRef, affected_rows = None, insert_id = None,
     server_status = None, warning_count = 0, message = None, field_count = Some 0,
     result_description = None, rows = None, has_next = None,
     unbuffered_active = False, result_fields = None \<rparr>"

text \<open>
  \<^verbatim>\<open>Connection\<close>. The attributes that \<^verbatim>\<open>__init__\<close> does not assign (the server's version,
  status, salt and so on) are \<open>None\<close> until the greeting sets them. The event loop, the cursor
  class, the timeout, \<^verbatim>\<open>no_delay\<close>, \<^verbatim>\<open>encoders\<close>, \<^verbatim>\<open>connected_time\<close> and
  \<^verbatim>\<open>host_info\<close> are left out: no function below reads them. The last two fields are not attributes: \<open>io_trace\<close> is the
  record of what asyncio did for this Connection, and \<open>network\<close> is what each next call of
  \<^verbatim>\<open>open_connection\<close> will find, \<open>None\<close> for a refused connection.
\<close>

type_synonym converter = "pyval \<Rightarrow> error + pyval"

record Connection =
  host :: pystr
  port :: int
  user :: "strbytes option"
  password :: pystr
  db :: "strbytes option"
  unix_socket :: "pystr option"
  charset :: pystr
  use_unicode :: bool
  encoding :: pystr
  client_flag :: nat
  result :: "MySQLResult option"
  conn_affected_rows :: "nat option"
  autocommit_mode :: "bool option"
  decoders :: "nat \<Rightarrow> converter option"
  sql_mode :: "pystr option"
  init_command :: "pystr option"
  reader :: "stream_reader option"
  writer :: "stream_writer option"
  protocol_version :: "nat option"
  server_version :: "pystr option"
  server_thread_id :: "nat option"
  salt :: "bytes option"
  server_capabilities :: "nat option"
  server_language :: "nat option"
  server_charset :: "pystr option"
  conn_server_status :: "nat option"
  io_trace :: "io_event list"
  network :: "stream_reader option list"

section \<open>struct and slices\<close>

fun pack_le :: "nat \<Rightarrow> nat \<Rightarrow> bytes" where
  "pack_le 0 n = []"
| "pack_le (Suc w) n = of_nat (n mod 256) # pack_le w (n div 256)"

fun unpack_le :: "bytes \<Rightarrow> nat" where
  "unpack_le [] = 0"
| "unpack_le (b # bs) = unat b + 256 * unpack_le bs"

text \<open>\<^verbatim>\<open>struct.unpack\<close> of one little-endian unsigned integer of \<open>w\<close> bytes.\<close>

definition struct_unpack :: "nat \<Rightarrow> bytes \<Rightarrow> error + nat" where
  "struct_unpack w data = (if length data = w then Inr (unpack_le data) else Inl StructError)"

text \<open>\<^verbatim>\<open>struct.pack('<i', n)\<close> and \<^verbatim>\<open>struct.pack('<I', n)\<close> for a non-negative \<open>n\<close>.\<close>

definition struct_pack_i :: "nat \<Rightarrow> error + bytes" where
  "struct_pack_i n = (if n < 2 ^ 31 then Inr (pack_le 4 n) else Inl StructError)"

definition struct_pack_I :: "nat \<Rightarrow> error + bytes" where
  "struct_pack_I n = (if n < 2 ^ 32 then Inr (pack_le 4 n) else Inl StructError)"

text \<open>\<^verbatim>\<open>int2byte\<close> is \<^verbatim>\<open>struct.pack("!B", x)\<close>; \<^verbatim>\<open>byte2int\<close> is its inverse on one byte.\<close>

definition int2byte :: "nat \<Rightarrow> error + bytes" where
  "int2byte x = (if x < 256 then Inr [of_nat x] else Inl StructError)"

definition byte2int :: "bytes \<Rightarrow> error + nat" where
  "byte2int b = struct_unpack 1 b"

text \<open>\<^verbatim>\<open>pack_int24\<close> is \<^verbatim>\<open>struct.pack('<I', n)[:3]\<close>.\<close>

definition pack_int24 :: "nat \<Rightarrow> error + bytes" where
  "pack_int24 n = (case struct_pack_I n of Inl e \<Rightarrow> Inl e | Inr b \<Rightarrow> Inr (take 3 b))"

text \<open>Python's \<^verbatim>\<open>xs[i:j]\<close>: a negative index counts from the end, and both are clamped.\<close>

definition py_index :: "int \<Rightarrow> nat \<Rightarrow> nat" where
  "py_index i n = (if i < 0 then nat (max 0 (int n + i)) else min (nat i) n)"

definition py_slice :: "'a list \<Rightarrow> int \<Rightarrow> int \<Rightarrow> 'a list" where
  "py_slice xs i j =
     (let a = py_index i (length xs); b = py_index j (length xs)
      in take (b - a) (drop a xs))"

text \<open>\<^verbatim>\<open>data.find(int2byte(0), i)\<close> for \<open>i \<ge> 0\<close>: the first index from \<open>i\<close> on, or -1.\<close>

fun find_from :: "bytes \<Rightarrow> byte \<Rightarrow> nat \<Rightarrow> int" where
  "find_from [] b i = -1"
| "find_from (x # xs) b 0 = (if x = b then 0 else (let r = find_from xs b 0 in if r < 0 then -1 else r + 1))"
| "find_from (x # xs) b (Suc i) = (let r = find_from xs b i in if r < 0 then -1 else r + 1)"


section \<open>Reading and writing on the transport\<close>

definition buffer_len :: "Connection \<Rightarrow> nat" where
  "buffer_len c = (case reader c of None \<Rightarrow> 0 | Some rd \<Rightarrow> length (buffer rd))"

text \<open>
  \<^verbatim>\<open>self._reader.readexactly(n)\<close>. With no reader the attribute access on \<^verbatim>\<open>None\<close> raises;
  a stream that ends before \<open>n\<close> bytes raises and leaves nothing to read.
\<close>

definition readexactly :: "nat \<Rightarrow> Connection \<Rightarrow> (error + bytes) \<times> Connection" where
  "readexactly n c =
     (case reader c of
        None \<Rightarrow> (Inl AttributeError, c)
      | Some rd \<Rightarrow>
          if n \<le> length (buffer rd)
          then (Inr (take n (buffer rd)),
                c\<lparr>reader := Some (rd\<lparr>buffer := drop n (buffer rd)\<rparr>),
                  io_trace := io_trace c @ [Recv (take n (buffer rd))]\<rparr>)
          else (Inl (if broken rd then OSError else IncompleteReadError),
                c\<lparr>reader := Some (rd\<lparr>buffer := []\<rparr>)\<rparr>))"

text \<open>\<^verbatim>\<open>Connection._write_bytes\<close>: one call of \<^verbatim>\<open>self._writer.write(data)\<close>.\<close>

definition write_bytes :: "bytes \<Rightarrow> Connection \<Rightarrow> (error + unit) \<times> Connection" where
  "write_bytes data c =
     (case writer c of
        None \<Rightarrow> (Inl AttributeError, c)
      | Some w \<Rightarrow> (Inr (), c\<lparr>io_trace := io_trace c @ [Send data]\<rparr>))"

lemma readexactly_buffer_len:
  "readexactly n c = (Inr d, c') \<Longrightarrow> buffer_len c' + n = buffer_len c"
  by (auto simp: readexactly_def buffer_len_def split: option.splits if_splits)

text \<open>
  The \<^verbatim>\<open>while True\<close> loop of \<^verbatim>\<open>Connection._read_packet\<close>, with \<open>buff\<close> what it has
  collected: a 4-byte header, whose first three bytes padded with a zero byte are the
  length, then that many bytes, until a frame is shorter than the maximum.
\<close>

function read_packet_loop :: "bytes \<Rightarrow> Connection \<Rightarrow> (error + bytes) \<times> Connection" where
  "read_packet_loop buff c =
     (case readexactly 4 c of
        (Inl e, c1) \<Rightarrow> (Inl e, c1)
      | (Inr packet_header, c1) \<Rightarrow>
          (let bytes_to_read = unpack_le (take 3 packet_header @ [0]) in
           case readexactly bytes_to_read c1 of
             (Inl e, c2) \<Rightarrow> (Inl e, c2)
           | (Inr recv_data, c2) \<Rightarrow>
               if bytes_to_read < MAX_PACKET_LEN then (Inr (buff @ recv_data), c2)
               else read_packet_loop (buff @ recv_data) c2))"
  by pat_completeness auto
termination
proof (relation "measure (\<lambda>(buff, c). buffer_len c)")
  show "wf (measure (\<lambda>(buff, c). buffer_len c))"
    by simp
next
  fix buff :: bytes and c x1 c1 packet_header bytes_to_read x2 c2 recv_data
  assume h: "(x1, c1) = readexactly 4 c" "x1 = Inr packet_header"
    and d: "(x2, c2) = readexactly bytes_to_read c1" "x2 = Inr recv_data"
  have "buffer_len c1 + 4 = buffer_len c"
    using h readexactly_buffer_len [of 4 c packet_header c1] by simp
  moreover have "buffer_len c2 + bytes_to_read = buffer_len c1"
    using d readexactly_buffer_len [of bytes_to_read c1 recv_data c2] by simp
  ultimately show "((buff @ recv_data, c2), (buff, c)) \<in> measure (\<lambda>(buff, c). buffer_len c)"
    by simp
qed

declare read_packet_loop.simps [simp del]

text \<open>
  \<^verbatim>\<open>Connection._read_packet\<close> for the default packet type: an \<^verbatim>\<open>OSError\<close> of the loop
  becomes \<^verbatim>\<open>OperationalError(2006, ...)\<close>, then the packet is built and \<^verbatim>\<open>check_error\<close>
  raises if it is an error packet.
\<close>

definition read_packet :: "library \<Rightarrow> Connection \<Rightarrow> (error + bytes) \<times> Connection" where
  "read_packet L c =
     (case read_packet_loop [] c of
        (Inl e, c1) \<Rightarrow> (Inl (if e = OSError then OperationalError 2006 else e), c1)
      | (Inr buff, c1) \<Rightarrow>
          (case check_error L buff of
             Some e \<Rightarrow> (Inl e, c1)
           | None \<Rightarrow> (Inr buff, c1)))"

text \<open>
  \<^verbatim>\<open>self._read_packet(FieldDescriptorPacket)\<close>: the same, with the field descriptor parsed
  when the packet is built, before \<^verbatim>\<open>check_error\<close>.
\<close>

definition read_field_packet :: "library \<Rightarrow> Connection \<Rightarrow> (error + field) \<times> Connection" where
  "read_field_packet L c =
     (case read_packet_loop [] c of
        (Inl e, c1) \<Rightarrow> (Inl (if e = OSError then OperationalError 2006 else e), c1)
      | (Inr buff, c1) \<Rightarrow>
          (case FieldDescriptorPacket L buff (encoding c1) of
             Inl e \<Rightarrow> (Inl e, c1)
           | Inr fd \<Rightarrow>
               (case check_error L buff of
                  Some e \<Rightarrow> (Inl e, c1)
                | None \<Rightarrow> (Inr fd, c1))))"

section \<open>Finishing a streaming result, sending a command\<close>

text \<open>\<^verbatim>\<open>MySQLResult._check_packet_is_eof\<close>.\<close>

definition check_packet_is_eof ::
  "library \<Rightarrow> bytes \<Rightarrow> MySQLResult \<Rightarrow> (error + bool) \<times> MySQLResult" where
  "check_packet_is_eof L packet r =
     (if is_eof_packet L packet
      then (case EOFPacketWrapper L packet of
              Inl e \<Rightarrow> (Inl e, r)
            | Inr eof \<Rightarrow>
                (Inr True, r\<lparr>warning_count := eof_warning_count eof,
                             has_next := Some (eof_has_next eof)\<rparr>))
      else (Inr False, r))"

lemma read_packet_loop_buffer_len:
  "read_packet_loop buff c = (Inr p, c') \<Longrightarrow> buffer_len c' < buffer_len c"
proof (induction buff c rule: read_packet_loop.induct)
  case (1 buff c)
  obtain x1 c1 where r1: "readexactly 4 c = (x1, c1)"
    by (cases "readexactly 4 c")
  with "1.prems" obtain hd where x1: "x1 = Inr hd"
    by (cases x1) (simp_all add: read_packet_loop.simps [of buff c])
  define n where "n = unpack_le (take 3 hd @ [0])"
  obtain x2 c2 where r2: "readexactly n c1 = (x2, c2)"
    by (cases "readexactly n c1")
  with "1.prems" r1 x1 obtain d where x2: "x2 = Inr d"
    by (cases x2) (simp_all add: read_packet_loop.simps [of buff c] n_def Let_def)
  have l1: "buffer_len c1 + 4 = buffer_len c"
    using r1 x1 readexactly_buffer_len by blast
  have l2: "buffer_len c2 + n = buffer_len c1"
    using r2 x2 readexactly_buffer_len by blast
  show ?case
  proof (cases "n < MAX_PACKET_LEN")
    case True
    with "1.prems" r1 x1 r2 x2 have "c' = c2"
      by (simp add: read_packet_loop.simps [of buff c] n_def Let_def)
    with l1 l2 show ?thesis by simp
  next
    case False
    with "1.prems" r1 x1 r2 x2 have "read_packet_loop (buff @ d) c2 = (Inr p, c')"
      by (simp add: read_packet_loop.simps [of buff c] n_def Let_def)
    with "1.IH" [OF r1 [symmetric] x1 n_def r2 [symmetric] x2 False]
    have "buffer_len c' < buffer_len c2" by simp
    with l1 l2 show ?thesis by simp
  qed
qed

lemma read_packet_buffer_len:
  "read_packet L c = (Inr p, c') \<Longrightarrow> buffer_len c' < buffer_len c"
  by (auto simp: read_packet_def split: prod.splits sum.splits option.splits
      dest: read_packet_loop_buffer_len)


text \<open>
  \<^verbatim>\<open>MySQLResult._finish_unbuffered_query\<close>: while the result is active, read a packet, and
  at an EOF marker clear the flag and the back-reference.
\<close>

function finish_unbuffered_query ::
  "library \<Rightarrow> MySQLResult \<Rightarrow> Connection \<Rightarrow> (error + unit) \<times> MySQLResult \<times> Connection" where
  "finish_unbuffered_query L r c =
     (if unbuffered_active r then
        (case connection r of
           None \<Rightarrow> (Inl AttributeError, r, c)
         | Some ref \<Rightarrow>
             (case read_packet L c of
                (Inl e, c1) \<Rightarrow> (Inl e, r, c1)
              | (Inr packet, c1) \<Rightarrow>
                  (case check_packet_is_eof L packet r of
                     (Inl e, r1) \<Rightarrow> (Inl e, r1, c1)
                   | (Inr True, r1) \<Rightarrow>
                       finish_unbuffered_query L
                         (r1\<lparr>unbuffered_active := False, connection := None\<rparr>) c1
                   | (Inr False, r1) \<Rightarrow> finish_unbuffered_query L r1 c1)))
      else (Inr (), r, c))"
  by pat_completeness auto
termination
proof (relation "measure (\<lambda>(L, r, c). buffer_len c)")
  show "wf (measure (\<lambda>(L, r, c). buffer_len c))"
    by simp
next
  fix L r c ref x1 c1 packet x2 r1 b
  assume "(x1, c1) = read_packet L c" "x1 = Inr packet"
  then have "buffer_len c1 < buffer_len c"
    using read_packet_buffer_len [of L c packet c1] by simp
  then show "((L, r1\<lparr>unbuffered_active := False, connection := None\<rparr>, c1), (L, r, c))
      \<in> measure (\<lambda>(L, r, c). buffer_len c)"
    by simp
next
  fix L r c ref x1 c1 packet x2 r1 b
  assume "(x1, c1) = read_packet L c" "x1 = Inr packet"
  then have "buffer_len c1 < buffer_len c"
    using read_packet_buffer_len [of L c packet c1] by simp
  then show "((L, r1, c1), (L, r, c)) \<in> measure (\<lambda>(L, r, c). buffer_len c)"
    by simp
qed

declare finish_unbuffered_query.simps [simp del]

text \<open>
  The \<^verbatim>\<open>while True\<close> loop of \<^verbatim>\<open>Connection._execute_command\<close>, which sends what is left of
  \<open>sql\<close> after the first frame: a 3-byte length, the sequence number modulo 256, a chunk.
\<close>

function execute_command_loop ::
  "nat \<Rightarrow> bytes \<Rightarrow> Connection \<Rightarrow> (error + unit) \<times> Connection" where
  "execute_command_loop seq_id sql c =
     (let chunk_size = min MAX_PACKET_LEN (length sql);
          prelude = take 3 (pack_le 4 chunk_size);
          data = prelude @ [of_nat (seq_id mod 256)] @ take chunk_size sql
      in case write_bytes data c of
           (Inl e, c1) \<Rightarrow> (Inl e, c1)
         | (Inr u, c1) \<Rightarrow>
             (let sql' = drop chunk_size sql
              in if sql' = [] \<and> chunk_size < MAX_PACKET_LEN then (Inr (), c1)
                 else execute_command_loop (seq_id + 1) sql' c1))"
  by pat_completeness auto
termination
  by (relation "measure (\<lambda>(seq_id, sql, c). length sql)")
     (auto simp: MAX_PACKET_LEN_def min_def split: if_splits)

declare execute_command_loop.simps [simp del]

text \<open>
  \<^verbatim>\<open>Connection._execute_command\<close>. The result it finishes is the object \<^verbatim>\<open>self._result\<close>
  refers to, so what the finishing did to it is stored back. \<^verbatim>\<open>struct.pack('<i', chunk_size)\<close>
  cannot raise: \<open>chunk_size\<close> is at most \<open>MAX_PACKET_LEN\<close>. Its fourth byte, zero, stands where
  the sequence number of the first frame goes.
\<close>

definition execute_command ::
  "library \<Rightarrow> byte \<Rightarrow> strbytes \<Rightarrow> Connection \<Rightarrow> (error + unit) \<times> Connection" where
  "execute_command L command sql c =
     (if writer c = None then (Inl InterfaceError, c)
      else
        (case (case result c of
                 None \<Rightarrow> (Inr (), c)
               | Some r \<Rightarrow>
                   if unbuffered_active r
                   then (case finish_unbuffered_query L r c of
                           (x, r1, c1) \<Rightarrow> (x, c1\<lparr>result := Some r1\<rparr>))
                   else (Inr (), c)) of
           (Inl e, c1) \<Rightarrow> (Inl e, c1)
         | (Inr u, c1) \<Rightarrow>
             (case (case sql of Str s \<Rightarrow> encode L (encoding c1) s | Bytes b \<Rightarrow> Inr b) of
                Inl e \<Rightarrow> (Inl e, c1)
              | Inr sql \<Rightarrow>
                  (let chunk_size = min MAX_PACKET_LEN (length sql + 1);
                       prelude = pack_le 4 chunk_size @ [command]
                   in case write_bytes (prelude @ take (chunk_size - 1) sql) c1 of
                        (Inl e, c2) \<Rightarrow> (Inl e, c2)
                      | (Inr u, c2) \<Rightarrow>
                          if chunk_size < MAX_PACKET_LEN then (Inr (), c2)
                          else execute_command_loop 1 (drop (chunk_size - 1) sql) c2))))"


section \<open>Decoding rows\<close>

text \<open>
  The body of the \<^verbatim>\<open>for field in self.fields\<close> loop of
  \<^verbatim>\<open>MySQLResult._read_row_from_packet\<close>, after the column value \<open>data\<close> was read from
  the packet. \<^verbatim>\<open>data.decode()\<close> without an argument decodes as UTF-8.
\<close>

definition read_row_value ::
  "library \<Rightarrow> Connection \<Rightarrow> bool \<Rightarrow> field \<Rightarrow> bytes option \<Rightarrow> error + pyval" where
  "read_row_value L c use_unicode' fd data =
     (case data of
        None \<Rightarrow> Inr PyNone
      | Some raw \<Rightarrow>
          (let field_type = type_code fd in
           case (if use_unicode' then
                   (if field_type \<in> set (TEXT_TYPES L) then
                      (case charset_by_id L (charsetnr fd) of
                         None \<Rightarrow> Inl KeyError
                       | Some cs \<Rightarrow>
                           if use_unicode' \<and> \<not> is_binary cs
                           then (case decode L (charset_encoding cs) raw of
                                   Inl e \<Rightarrow> Inl e
                                 | Inr s \<Rightarrow> Inr (PyStr s))
                           else Inr (PyBytes raw))
                    else (case decode L (str ''utf-8'') raw of
                            Inl e \<Rightarrow> Inl e
                          | Inr s \<Rightarrow> Inr (PyStr s)))
                 else Inr (PyBytes raw)) of
             Inl e \<Rightarrow> Inl e
           | Inr v \<Rightarrow>
               (case decoders c field_type of
                  None \<Rightarrow> Inr v
                | Some converter \<Rightarrow> converter v)))"

text \<open>The loop itself: one length-coded string per field, from position \<open>pos\<close> on.\<close>

fun read_row_fields ::
  "library \<Rightarrow> Connection \<Rightarrow> bool \<Rightarrow> field list \<Rightarrow> bytes \<Rightarrow> nat \<Rightarrow> error + row" where
  "read_row_fields L c use_unicode' [] packet pos = Inr []"
| "read_row_fields L c use_unicode' (fd # fds) packet pos =
     (case read_length_coded_string L packet pos of
        Inl e \<Rightarrow> Inl e
      | Inr (data, pos') \<Rightarrow>
          (case read_row_value L c use_unicode' fd data of
             Inl e \<Rightarrow> Inl e
           | Inr v \<Rightarrow>
               (case read_row_fields L c use_unicode' fds packet pos' of
                  Inl e \<Rightarrow> Inl e
                | Inr vs \<Rightarrow> Inr (v # vs))))"

definition read_row_from_packet ::
  "library \<Rightarrow> MySQLResult \<Rightarrow> Connection \<Rightarrow> bytes \<Rightarrow> error + row" where
  "read_row_from_packet L r c packet =
     (case connection r of
        None \<Rightarrow> Inl AttributeError
      | Some ref \<Rightarrow>
          (case result_fields r of
             None \<Rightarrow> Inl AttributeError
           | Some fds \<Rightarrow> read_row_fields L c (use_unicode c) fds packet 0))"

section \<open>Reading results\<close>

text \<open>\<^verbatim>\<open>MySQLResult._read_ok_packet\<close>.\<close>

definition result_read_ok_packet ::
  "library \<Rightarrow> bytes \<Rightarrow> MySQLResult \<Rightarrow> (error + unit) \<times> MySQLResult" where
  "result_read_ok_packet L first_packet r =
     (case OKPacketWrapper L first_packet of
        Inl e \<Rightarrow> (Inl e, r)
      | Inr ok \<Rightarrow>
          (Inr (), r\<lparr>affected_rows := Some (ok_affected_rows ok),
                      insert_id := Some (ok_insert_id ok),
                      server_status := Some (ok_server_status ok),
                      warning_count := ok_warning_count ok,
                      message := Some (ok_message ok),
                      has_next := Some (ok_has_next ok)\<rparr>))"

text \<open>
  \<^verbatim>\<open>MySQLResult._get_descriptions\<close>: the \<^verbatim>\<open>for i in range(self.field_count)\<close> loop with
  \<open>n\<close> rounds to go, then the function.
\<close>

fun get_descriptions_loop ::
  "library \<Rightarrow> nat \<Rightarrow> pyval list list \<Rightarrow> MySQLResult \<Rightarrow> Connection
     \<Rightarrow> (error + pyval list list) \<times> MySQLResult \<times> Connection" where
  "get_descriptions_loop L 0 descr r c = (Inr descr, r, c)"
| "get_descriptions_loop L (Suc n) descr r c =
     (case connection r of
        None \<Rightarrow> (Inl AttributeError, r, c)
      | Some ref \<Rightarrow>
          (case read_field_packet L c of
             (Inl e, c1) \<Rightarrow> (Inl e, r, c1)
           | (Inr fd, c1) \<Rightarrow>
               (case result_fields r of
                  None \<Rightarrow> (Inl AttributeError, r, c1)
                | Some fds \<Rightarrow>
                    get_descriptions_loop L n (descr @ [description L fd])
                      (r\<lparr>result_fields := Some (fds @ [fd])\<rparr>) c1)))"

definition get_descriptions ::
  "library \<Rightarrow> MySQLResult \<Rightarrow> Connection \<Rightarrow> (error + unit) \<times> MySQLResult \<times> Connection" where
  "get_descriptions L r c =
     (let r0 = r\<lparr>result_fields := Some []\<rparr> in
      case field_count r0 of
        None \<Rightarrow> (Inl TypeError, r0, c)
      | Some n \<Rightarrow>
          (case get_descriptions_loop L n [] r0 c of
             (Inl e, r1, c1) \<Rightarrow> (Inl e, r1, c1)
           | (Inr descr, r1, c1) \<Rightarrow>
               (case connection r1 of
                  None \<Rightarrow> (Inl AttributeError, r1, c1)
                | Some ref \<Rightarrow>
                    (case read_packet L c1 of
                       (Inl e, c2) \<Rightarrow> (Inl e, r1, c2)
                     | (Inr eof_packet, c2) \<Rightarrow>
                         if is_eof_packet L eof_packet
                         then (Inr (), r1\<lparr>result_description := Some descr\<rparr>, c2)
                         else (Inl AssertionError, r1, c2)))))"

text \<open>
  \<^verbatim>\<open>MySQLResult._read_rowdata_packet\<close>: the \<^verbatim>\<open>while True\<close> loop with the rows collected
  so far, then the function.
\<close>

function read_rowdata_packet_loop ::
  "library \<Rightarrow> row list \<Rightarrow> MySQLResult \<Rightarrow> Connection
     \<Rightarrow> (error + row list) \<times> MySQLResult \<times> Connection" where
  "read_rowdata_packet_loop L rws r c =
     (case connection r of
        None \<Rightarrow> (Inl AttributeError, r, c)
      | Some ref \<Rightarrow>
          (case read_packet L c of
             (Inl e, c1) \<Rightarrow> (Inl e, r, c1)
           | (Inr packet, c1) \<Rightarrow>
               (case check_packet_is_eof L packet r of
                  (Inl e, r1) \<Rightarrow> (Inl e, r1, c1)
                | (Inr True, r1) \<Rightarrow> (Inr rws, r1\<lparr>connection := None\<rparr>, c1)
                | (Inr False, r1) \<Rightarrow>
                    (case read_row_from_packet L r1 c1 packet of
                       Inl e \<Rightarrow> (Inl e, r1, c1)
                     | Inr rw \<Rightarrow> read_rowdata_packet_loop L (rws @ [rw]) r1 c1))))"
  by pat_completeness auto
termination
proof (relation "measure (\<lambda>(L, rws, r, c). buffer_len c)")
  show "wf (measure (\<lambda>(L, rws, r, c). buffer_len c))"
    by simp
next
  fix L rws r c ref x1 c1 packet x2 r1 b rw
  assume "(x1, c1) = read_packet L c" "x1 = Inr packet"
  then have "buffer_len c1 < buffer_len c"
    using read_packet_buffer_len [of L c packet c1] by simp
  then show "((L, rws @ [rw], r1, c1), (L, rws, r, c))
      \<in> measure (\<lambda>(L, rws, r, c). buffer_len c)"
    by simp
qed

declare read_rowdata_packet_loop.simps [simp del]

definition read_rowdata_packet ::
  "library \<Rightarrow> MySQLResult \<Rightarrow> Connection \<Rightarrow> (error + unit) \<times> MySQLResult \<times> Connection" where
  "read_rowdata_packet L r c =
     (case read_rowdata_packet_loop L [] r c of
        (Inl e, r1, c1) \<Rightarrow> (Inl e, r1, c1)
      | (Inr rws, r1, c1) \<Rightarrow>
          (Inr (), r1\<lparr>affected_rows := Some (length rws), rows := Some rws\<rparr>, c1))"

text \<open>\<^verbatim>\<open>MySQLResult._read_rowdata_packet_unbuffered\<close>: one pull of a streaming result.\<close>

definition read_rowdata_packet_unbuffered ::
  "library \<Rightarrow> MySQLResult \<Rightarrow> Connection
     \<Rightarrow> (error + row option) \<times> MySQLResult \<times> Connection" where
  "read_rowdata_packet_unbuffered L r c =
     (if \<not> unbuffered_active r then (Inr None, r, c)
      else
        (case connection r of
           None \<Rightarrow> (Inl AttributeError, r, c)
         | Some ref \<Rightarrow>
             (case read_packet L c of
                (Inl e, c1) \<Rightarrow> (Inl e, r, c1)
              | (Inr packet, c1) \<Rightarrow>
                  (case check_packet_is_eof L packet r of
                     (Inl e, r1) \<Rightarrow> (Inl e, r1, c1)
                   | (Inr True, r1) \<Rightarrow>
                       (Inr None,
                        r1\<lparr>unbuffered_active := False, connection := None, rows := None\<rparr>, c1)
                   | (Inr False, r1) \<Rightarrow>
                       (case read_row_from_packet L r1 c1 packet of
                          Inl e \<Rightarrow> (Inl e, r1, c1)
                        | Inr rw \<Rightarrow>
                            (Inr (Some rw),
                             r1\<lparr>affected_rows := Some 1, rows := Some [rw]\<rparr>, c1))))))"

lemma read_rowdata_packet_unbuffered_buffer_len:
  "read_rowdata_packet_unbuffered L r c = (Inr (Some rw), r1, c1) \<Longrightarrow>
   buffer_len c1 < buffer_len c"
  by (auto simp: read_rowdata_packet_unbuffered_def
      split: if_splits option.splits prod.splits sum.splits bool.splits
      dest: read_packet_buffer_len)

text \<open>
  Modelled from the spec: a streaming result is consumed by "repeated single-row pulls until
  end-of-rows". The cursor that pulls (the module \<^verbatim>\<open>.cursors\<close>) is not among the sources;
  this is the loop the words describe, returning the rows pulled.
\<close>

function fetch_all_unbuffered ::
  "library \<Rightarrow> MySQLResult \<Rightarrow> Connection \<Rightarrow> (error + row list) \<times> MySQLResult \<times> Connection" where
  "fetch_all_unbuffered L r c =
     (case read_rowdata_packet_unbuffered L r c of
        (Inl e, r1, c1) \<Rightarrow> (Inl e, r1, c1)
      | (Inr None, r1, c1) \<Rightarrow> (Inr [], r1, c1)
      | (Inr (Some rw), r1, c1) \<Rightarrow>
          (case fetch_all_unbuffered L r1 c1 of
             (Inl e, r2, c2) \<Rightarrow> (Inl e, r2, c2)
           | (Inr rws, r2, c2) \<Rightarrow> (Inr (rw # rws), r2, c2)))"
  by pat_completeness auto
termination
proof (relation "measure (\<lambda>(L, r, c). buffer_len c)")
  show "wf (measure (\<lambda>(L, r, c). buffer_len c))"
    by simp
next
  fix L r c x1 y x2 r1 c1 x3 rw
  assume "(x1, y) = read_rowdata_packet_unbuffered L r c" "(r1, c1) = y" "x1 = Inr x3"
    "x3 = Some rw"
  then have "read_rowdata_packet_unbuffered L r c = (Inr (Some rw), r1, c1)"
    by simp
  then have "buffer_len c1 < buffer_len c"
    by (rule read_rowdata_packet_unbuffered_buffer_len)
  then show "((L, r1, c1), (L, r, c)) \<in> measure (\<lambda>(L, r, c). buffer_len c)"
    by simp
qed

declare fetch_all_unbuffered.simps [simp del]


text \<open>\<^verbatim>\<open>MySQLResult._read_result_packet\<close>.\<close>

definition read_result_packet ::
  "library \<Rightarrow> bytes \<Rightarrow> MySQLResult \<Rightarrow> Connection
     \<Rightarrow> (error + unit) \<times> MySQLResult \<times> Connection" where
  "read_result_packet L first_packet r c =
     (case read_length_encoded_integer L first_packet of
        Inl e \<Rightarrow> (Inl e, r, c)
      | Inr n \<Rightarrow>
          (case get_descriptions L (r\<lparr>field_count := n\<rparr>) c of
             (Inl e, r1, c1) \<Rightarrow> (Inl e, r1, c1)
           | (Inr u, r1, c1) \<Rightarrow> read_rowdata_packet L r1 c1))"

text \<open>
  \<^verbatim>\<open>MySQLResult.read\<close>, the buffered mode; its \<^verbatim>\<open>finally\<close> clears the back-reference
  whatever happened.
\<close>

definition read ::
  "library \<Rightarrow> MySQLResult \<Rightarrow> Connection \<Rightarrow> (error + unit) \<times> MySQLResult \<times> Connection" where
  "read L r c =
     (case (case connection r of
              None \<Rightarrow> (Inl AttributeError, r, c)
            | Some ref \<Rightarrow>
                (case read_packet L c of
                   (Inl e, c1) \<Rightarrow> (Inl e, r, c1)
                 | (Inr first_packet, c1) \<Rightarrow>
                     if is_ok_packet L first_packet
                     then (case result_read_ok_packet L first_packet r of
                             (x, r1) \<Rightarrow> (x, r1, c1))
                     else read_result_packet L first_packet r c1)) of
        (x, r1, c1) \<Rightarrow> (x, r1\<lparr>connection := None\<rparr>, c1))"

text \<open>
  \<^verbatim>\<open>MySQLResult.init_unbuffered_query\<close>, the streaming mode. The source's
  \<^verbatim>\<open>self._get_descriptions()\<close> stands without \<^verbatim>\<open>yield from\<close>: calling the coroutine function
  only creates a generator object, which is dropped, and the body of
  \<^verbatim>\<open>_get_descriptions\<close> never runs. So no descriptor packet is read here and \<^verbatim>\<open>fields\<close>
  is not assigned; the buffered \<^verbatim>\<open>_read_result_packet\<close> has the \<^verbatim>\<open>yield from\<close>.
\<close>

definition init_unbuffered_query ::
  "library \<Rightarrow> MySQLResult \<Rightarrow> Connection \<Rightarrow> (error + unit) \<times> MySQLResult \<times> Connection" where
  "init_unbuffered_query L r c =
     (let r0 = r\<lparr>unbuffered_active := True\<rparr> in
      case connection r0 of
        None \<Rightarrow> (Inl AttributeError, r0, c)
      | Some ref \<Rightarrow>
          (case read_packet L c of
             (Inl e, c1) \<Rightarrow> (Inl e, r0, c1)
           | (Inr first_packet, c1) \<Rightarrow>
               if is_ok_packet L first_packet
               then (case result_read_ok_packet L first_packet r0 of
                       (Inl e, r1) \<Rightarrow> (Inl e, r1, c1)
                     | (Inr u, r1) \<Rightarrow>
                         (Inr (), r1\<lparr>unbuffered_active := False, connection := None\<rparr>, c1))
               else (case read_length_encoded_integer L first_packet of
                       Inl e \<Rightarrow> (Inl e, r0, c1)
                     | Inr n \<Rightarrow>
                         (Inr (), r0\<lparr>field_count := n,
                                      affected_rows := Some 18446744073709551615\<rparr>, c1))))"


section \<open>The Connection's operations\<close>

text \<open>\<^verbatim>\<open>Connection.close\<close>: \<^verbatim>\<open>self._writer.transport.close()\<close>, then \<^verbatim>\<open>self._writer = None\<close>.\<close>

definition close :: "Connection \<Rightarrow> (error + unit) \<times> Connection" where
  "close c =
     (case writer c of
        None \<Rightarrow> (Inl AttributeError, c)
      | Some w \<Rightarrow> (Inr (), c\<lparr>io_trace := io_trace c @ [Closed], writer := None\<rparr>))"

text \<open>\<^verbatim>\<open>Connection._read_ok_packet\<close>.\<close>

definition read_ok_packet :: "library \<Rightarrow> Connection \<Rightarrow> (error + bool) \<times> Connection" where
  "read_ok_packet L c =
     (case read_packet L c of
        (Inl e, c1) \<Rightarrow> (Inl e, c1)
      | (Inr pkt, c1) \<Rightarrow>
          if \<not> is_ok_packet L pkt then (Inl (OperationalError 2014), c1)
          else (case OKPacketWrapper L pkt of
                  Inl e \<Rightarrow> (Inl e, c1)
                | Inr ok \<Rightarrow> (Inr True, c1\<lparr>conn_server_status := Some (ok_server_status ok)\<rparr>)))"

text \<open>
  \<^verbatim>\<open>Connection._read_query_result\<close>. A result whose reading raised is dropped, and
  \<^verbatim>\<open>self._result\<close> keeps the older one.
\<close>

definition read_query_result ::
  "library \<Rightarrow> bool \<Rightarrow> Connection \<Rightarrow> (error + unit) \<times> Connection" where
  "read_query_result L unbuffered c =
     (case (if unbuffered then init_unbuffered_query L MySQLResult_init c
            else read L MySQLResult_init c) of
        (Inl e, r1, c1) \<Rightarrow> (Inl e, c1)
      | (Inr u, r1, c1) \<Rightarrow>
          (Inr (), c1\<lparr>result := Some r1,
                      conn_affected_rows := affected_rows r1,
                      conn_server_status :=
                        (case server_status r1 of
                           None \<Rightarrow> conn_server_status c1
                         | Some st \<Rightarrow> Some st)\<rparr>))"

text \<open>\<^verbatim>\<open>Connection.query\<close>, which returns the affected-row count.\<close>

definition query ::
  "library \<Rightarrow> strbytes \<Rightarrow> bool \<Rightarrow> Connection \<Rightarrow> (error + nat option) \<times> Connection" where
  "query L sql unbuffered c =
     (case execute_command L COM_QUERY sql c of
        (Inl e, c1) \<Rightarrow> (Inl e, c1)
      | (Inr u, c1) \<Rightarrow>
          (case read_query_result L unbuffered c1 of
             (Inl e, c2) \<Rightarrow> (Inl e, c2)
           | (Inr u, c2) \<Rightarrow> (Inr (conn_affected_rows c2), c2)))"

text \<open>\<^verbatim>\<open>Connection.commit\<close>.\<close>

definition commit :: "library \<Rightarrow> Connection \<Rightarrow> (error + bool) \<times> Connection" where
  "commit L c =
     (case execute_command L COM_QUERY (Str (str ''COMMIT'')) c of
        (Inl e, c1) \<Rightarrow> (Inl e, c1)
      | (Inr u, c1) \<Rightarrow> read_ok_packet L c1)"

text \<open>
  \<^verbatim>\<open>Connection._send_autocommit_mode\<close>; \<^verbatim>\<open>self.escape\<close> of a value that is not a string
  is \<^verbatim>\<open>escape_item(obj, self.charset)\<close>.
\<close>

definition send_autocommit_mode :: "library \<Rightarrow> Connection \<Rightarrow> (error + bool) \<times> Connection" where
  "send_autocommit_mode L c =
     (case execute_command L COM_QUERY
             (Str (str ''SET AUTOCOMMIT = '' @
                   escape_item L (case autocommit_mode c of None \<Rightarrow> PyNone | Some b \<Rightarrow> PyBool b)
                     (charset c))) c of
        (Inl e, c1) \<Rightarrow> (Inl e, c1)
      | (Inr u, c1) \<Rightarrow> read_ok_packet L c1)"

text \<open>\<^verbatim>\<open>Connection.get_autocommit\<close> and \<^verbatim>\<open>Connection.autocommit\<close>.\<close>

definition get_autocommit :: "library \<Rightarrow> Connection \<Rightarrow> error + bool" where
  "get_autocommit L c =
     (case conn_server_status c of
        None \<Rightarrow> Inl AttributeError
      | Some st \<Rightarrow> Inr (st AND SERVER_STATUS_AUTOCOMMIT L \<noteq> 0))"

definition autocommit :: "library \<Rightarrow> bool \<Rightarrow> Connection \<Rightarrow> (error + unit) \<times> Connection" where
  "autocommit L v c =
     (let c0 = c\<lparr>autocommit_mode := Some v\<rparr> in
      case get_autocommit L c0 of
        Inl e \<Rightarrow> (Inl e, c0)
      | Inr current \<Rightarrow>
          if v \<noteq> current
          then (case send_autocommit_mode L c0 of
                  (Inl e, c1) \<Rightarrow> (Inl e, c1)
                | (Inr u, c1) \<Rightarrow> (Inr (), c1))
          else (Inr (), c0))"

section \<open>The handshake\<close>

text \<open>\<^verbatim>\<open>struct.unpack('<BHHB', b)\<close>.\<close>

definition unpack_BHHB :: "bytes \<Rightarrow> error + nat \<times> nat \<times> nat \<times> nat" where
  "unpack_BHHB b =
     (if length b = 6
      then Inr (unpack_le (take 1 b), unpack_le (take 2 (drop 1 b)),
                unpack_le (take 2 (drop 3 b)), unpack_le (drop 5 b))
      else Inl StructError)"

text \<open>
  \<^verbatim>\<open>Connection._get_server_information\<close>. The local \<^verbatim>\<open>salt_len\<close> is bound only inside
  \<^verbatim>\<open>if len(data) >= i + 6\<close>: the block below returns it, \<open>None\<close> for unbound, and the last
  test of the function reads it.
\<close>

definition server_information_extended ::
  "library \<Rightarrow> bytes \<Rightarrow> int \<Rightarrow> Connection \<Rightarrow> (error + int \<times> int option) \<times> Connection" where
  "server_information_extended L data i c =
     (if int (length data) \<ge> i + 6
      then (case unpack_BHHB (py_slice data i (i + 6)) of
              Inl e \<Rightarrow> (Inl e, c)
            | Inr (lang, stat, cap_h, salt_len) \<Rightarrow>
                (let c1 = c\<lparr>server_language := Some lang\<rparr> in
                 case charset_by_id L lang of
                   None \<Rightarrow> (Inl KeyError, c1)
                 | Some cs \<Rightarrow>
                     (let c2 = c1\<lparr>server_charset := Some (charset_name cs),
                                   conn_server_status := Some stat\<rparr>
                      in case server_capabilities c2 of
                           None \<Rightarrow> (Inl AttributeError, c2)
                         | Some caps \<Rightarrow>
                             (Inr (i + 6, Some (max 12 (int salt_len - 9))),
                              c2\<lparr>server_capabilities := Some (caps OR push_bit 16 cap_h)\<rparr>))))
      else (Inr (i, None), c))"

definition get_server_information ::
  "library \<Rightarrow> Connection \<Rightarrow> (error + unit) \<times> Connection" where
  "get_server_information L c =
     (case read_packet L c of
        (Inl e, c0) \<Rightarrow> (Inl e, c0)
      | (Inr data, c0) \<Rightarrow>
          (case byte2int (py_slice data 0 1) of
             Inl e \<Rightarrow> (Inl e, c0)
           | Inr pv \<Rightarrow>
               (let c1 = c0\<lparr>protocol_version := Some pv\<rparr>;
                    server_end = find_from data 0 1;
                    c2 = c1\<lparr>server_version := Some (map unat (py_slice data 1 server_end))\<rparr>;
                    i = server_end + 1
                in case struct_unpack 4 (py_slice data i (i + 4)) of
                     Inl e \<Rightarrow> (Inl e, c2)
                   | Inr tid \<Rightarrow>
                       (let c3 = c2\<lparr>server_thread_id := Some tid\<rparr>;
                            i = i + 4;
                            c4 = c3\<lparr>salt := Some (py_slice data i (i + 8))\<rparr>;
                            i = i + 9
                        in case struct_unpack 2 (py_slice data i (i + 2)) of
                             Inl e \<Rightarrow> (Inl e, c4)
                           | Inr caps \<Rightarrow>
                               (let c5 = c4\<lparr>server_capabilities := Some caps\<rparr>;
                                    i = i + 2
                                in case server_information_extended L data i c5 of
                                     (Inl e, c6) \<Rightarrow> (Inl e, c6)
                                   | (Inr (i, salt_len), c6) \<Rightarrow>
                                       (let i = i + 10 in
                                        case salt_len of
                                          None \<Rightarrow> (Inl UnboundLocalError, c6)
                                        | Some salt_len \<Rightarrow>
                                            if int (length data) \<ge> i + salt_len
                                            then (case salt c6 of
                                                    None \<Rightarrow> (Inl AttributeError, c6)
                                                  | Some s \<Rightarrow>
                                                      (Inr (), c6\<lparr>salt := Some
                                                         (s @ py_slice data i (i + salt_len))\<rparr>))
                                            else (Inr (), c6)))))))"


text \<open>
  \<^verbatim>\<open>Connection._request_authentication\<close>, in three parts: building the response
  (\<open>authentication_data\<close>, from \<^verbatim>\<open>data_init\<close> to the database name), sending it and reading
  the answer (\<open>authentication_exchange\<close>), and the function, which starts with the flags and
  the user. \<^verbatim>\<open>charset_by_name\<close> of an unknown name has no \<^verbatim>\<open>id\<close> to read. After the legacy
  scramble is written, the source's \<^verbatim>\<open>self._read_packet()\<close> stands without \<^verbatim>\<open>yield from\<close>
  and reads nothing.
\<close>

definition authentication_data ::
  "library \<Rightarrow> charset \<Rightarrow> bytes \<Rightarrow> Connection \<Rightarrow> error + bytes \<times> bytes \<times> Connection" where
  "authentication_data L cs ub c3 =
     (case struct_pack_i (client_flag c3) of
        Inl e \<Rightarrow> Inl e
      | Inr flags_bin \<Rightarrow>
     (case struct_pack_I 1 of
        Inl e \<Rightarrow> Inl e
      | Inr max_bin \<Rightarrow>
     (case int2byte (charset_id cs) of
        Inl e \<Rightarrow> Inl e
      | Inr cs_bin \<Rightarrow>
     (case encode L (str ''latin1'') (password c3) of
        Inl e \<Rightarrow> Inl e
      | Inr pw \<Rightarrow>
     (case salt c3 of
        None \<Rightarrow> Inl AttributeError
      | Some slt \<Rightarrow>
          (let data_init = flags_bin @ max_bin @ cs_bin @ replicate 23 0;
               data = data_init @ ub @ [0] @ scramble L pw slt
           in case db c3 of
                None \<Rightarrow> Inr (data, slt, c3)
              | Some (Str s) \<Rightarrow>
                  if s = [] then Inr (data, slt, c3)
                  else (case encode L (encoding c3) s of
                          Inl e \<Rightarrow> Inl e
                        | Inr dbb \<Rightarrow> Inr (data @ dbb @ [0], slt, c3\<lparr>db := Some (Bytes dbb)\<rparr>))
              | Some (Bytes dbb) \<Rightarrow>
                  if dbb = [] then Inr (data, slt, c3)
                  else Inr (data @ dbb @ [0], slt, c3)))))))"

definition authentication_exchange ::
  "library \<Rightarrow> bytes \<Rightarrow> bytes \<Rightarrow> Connection \<Rightarrow> (error + unit) \<times> Connection" where
  "authentication_exchange L data slt c4 =
     (case pack_int24 (length data) of
        Inl e \<Rightarrow> (Inl e, c4)
      | Inr len_bin \<Rightarrow>
          (case write_bytes (len_bin @ [1] @ data) c4 of
             (Inl e, c5) \<Rightarrow> (Inl e, c5)
           | (Inr u, c5) \<Rightarrow>
               (case read_packet L c5 of
                  (Inl e, c6) \<Rightarrow> (Inl e, c6)
                | (Inr auth_packet, c6) \<Rightarrow>
                    if is_eof_packet L auth_packet
                    then (case encode L (str ''latin1'') (password c6) of
                            Inl e \<Rightarrow> (Inl e, c6)
                          | Inr pw \<Rightarrow>
                              (let data = scramble_323 L pw slt @ [0] in
                               case pack_int24 (length data) of
                                 Inl e \<Rightarrow> (Inl e, c6)
                               | Inr len_bin \<Rightarrow> write_bytes (len_bin @ [3] @ data) c6))
                    else (Inr (), c6))))"

definition request_authentication ::
  "library \<Rightarrow> Connection \<Rightarrow> (error + unit) \<times> Connection" where
  "request_authentication L c =
     (let c1 = c\<lparr>client_flag := client_flag c OR CAPABILITIES L\<rparr> in
      case server_version c1 of
        None \<Rightarrow> (Inl AttributeError, c1)
      | Some sv \<Rightarrow>
          (let c2 = (if take 1 sv = str ''5''
                     then c1\<lparr>client_flag := client_flag c1 OR MULTI_RESULTS L\<rparr> else c1)
           in case user c2 of
                None \<Rightarrow> (Inl ValueError, c2)
              | Some u \<Rightarrow>
                  (case charset_by_name L (charset c2) of
                     None \<Rightarrow> (Inl AttributeError, c2)
                   | Some cs \<Rightarrow>
                       (case (case u of Str s \<Rightarrow> encode L (encoding c2) s | Bytes b \<Rightarrow> Inr b) of
                          Inl e \<Rightarrow> (Inl e, c2)
                        | Inr ub \<Rightarrow>
                            (let c3 = c2\<lparr>user := Some (Bytes ub)\<rparr> in
                             case authentication_data L cs ub c3 of
                               Inl e \<Rightarrow> (Inl e, c3)
                             | Inr (data, slt, c4) \<Rightarrow> authentication_exchange L data slt c4)))))"

text \<open>
  The arguments of \<^verbatim>\<open>connect\<close> and \<^verbatim>\<open>Connection.__init__\<close>; \<open>None\<close> is Python's \<^verbatim>\<open>None\<close>.
\<close>

record connect_args =
  arg_host :: pystr
  arg_user :: "pystr option"
  arg_password :: pystr
  arg_db :: "pystr option"
  arg_port :: int
  arg_unix_socket :: "pystr option"
  arg_charset :: pystr
  arg_sql_mode :: "pystr option"
  arg_read_default_file :: "pystr option"
  arg_conv :: "nat \<Rightarrow> converter option"
  arg_use_unicode :: "bool option"
  arg_client_flag :: nat
  arg_init_command :: "pystr option"
  arg_read_default_group :: "pystr option"
  arg_autocommit :: "bool option"

text \<open>Python's \<^verbatim>\<open>x or y\<close> on an optional string: \<^verbatim>\<open>None\<close> and the empty string are false.\<close>

definition truthy :: "pystr option \<Rightarrow> bool" where
  "truthy x = (case x of None \<Rightarrow> False | Some s \<Rightarrow> s \<noteq> [])"

definition or_default :: "pystr option \<Rightarrow> pystr \<Rightarrow> pystr" where
  "or_default x d = (case x of None \<Rightarrow> d | Some s \<Rightarrow> if s = [] then d else s)"

text \<open>
  \<^verbatim>\<open>Connection.__init__\<close>, with \<open>net\<close> what the network will answer. \<open>init_settings\<close> is
  its first part, up to the configuration file: the user, password, host, database, socket,
  port and character set that the assignments of the second part start from.
  \<^verbatim>\<open>_config(key, default)\<close> is the file's value, or the default when reading it raises.
  asyncio needs Python 3, so \<^verbatim>\<open>sys.version_info[0] > 2\<close> holds and an absent
  \<^verbatim>\<open>use_unicode\<close> becomes \<^verbatim>\<open>True\<close>.
\<close>

type_synonym settings =
  "pystr option \<times> pystr option \<times> pystr option \<times> pystr option \<times> pystr option \<times> int
     \<times> pystr option"

definition init_settings :: "library \<Rightarrow> connect_args \<Rightarrow> error + settings" where
  "init_settings L a =
     (let read_default_file =
            (if truthy (arg_read_default_group a) \<and> \<not> truthy (arg_read_default_file a)
             then (if take 3 (sys_platform L) = str ''win''
                   then Some (str ''c:'' @ [92] @ str ''my.ini'')
                   else Some (str ''/etc/my.cnf''))
             else arg_read_default_file a)
      in if truthy read_default_file
         then (let file = the read_default_file;
                   group = or_default (arg_read_default_group a) (str ''client'');
                   cfg = config_get L file group;
                   config = (\<lambda>key default. case cfg key of None \<Rightarrow> default | Some v \<Rightarrow> Some v)
               in case (case cfg ''port'' of
                          None \<Rightarrow> Inr (arg_port a)
                        | Some v \<Rightarrow>
                            (case int_of_str L v of
                               None \<Rightarrow> Inl ValueError
                             | Some n \<Rightarrow> Inr n)) of
                    Inl e \<Rightarrow> Inl e
                  | Inr port' \<Rightarrow>
                      Inr (config ''user'' (arg_user a),
                           config ''password'' (Some (arg_password a)),
                           config ''host'' (Some (arg_host a)),
                           config ''database'' (arg_db a),
                           config ''socket'' (arg_unix_socket a),
                           port',
                           config ''default-character-set'' (Some (arg_charset a))))
         else Inr (arg_user a, Some (arg_password a), Some (arg_host a), arg_db a,
                   arg_unix_socket a, arg_port a, Some (arg_charset a)))"

definition Connection_init ::
  "library \<Rightarrow> connect_args \<Rightarrow> stream_reader option list \<Rightarrow> error + Connection" where
  "Connection_init L a net =
     (let use_unicode' = (case arg_use_unicode a of None \<Rightarrow> Some True | Some b \<Rightarrow> Some b)
      in case init_settings L a of
           Inl e \<Rightarrow> Inl e
         | Inr (user', password', host', db', unix_socket', port', charset') \<Rightarrow>
             (let charset'' = (if truthy charset' then the charset' else DEFAULT_CHARSET L);
                  use_unicode'' = (case use_unicode' of None \<Rightarrow> truthy charset' | Some b \<Rightarrow> b)
              in case charset_by_name L charset'' of
                   None \<Rightarrow> Inl AttributeError
                 | Some cs \<Rightarrow>
                     Inr \<lparr> host = the host',
                           port = port',
                           user = Some (Str (or_default user' (DEFAULT_USER L))),
                           password = or_default password' [],
                           db = map_option Str db',
                           unix_socket = unix_socket',
                           charset = charset'',
                           use_unicode = use_unicode'',
                           encoding = charset_encoding cs,
                           client_flag =
                             (let cf = arg_client_flag a OR CAPABILITIES L OR MULTI_STATEMENTS L
                              in if truthy db' then cf OR CONNECT_WITH_DB L else cf),
                           result = None,
                           conn_affected_rows = Some 0,
                           autocommit_mode = arg_autocommit a,
                           decoders = arg_conv a,
                           sql_mode = arg_sql_mode a,
                           init_command = arg_init_command a,
                           reader = None,
                           writer = None,
                           protocol_version = None,
                           server_version = None,
                           server_thread_id = None,
                           salt = None,
                           server_capabilities = None,
                           server_language = None,
                           server_charset = None,
                           conn_server_status = None,
                           io_trace = [],
                           network = net \<rparr>))"

text \<open>
  \<^verbatim>\<open>asyncio.open_connection\<close> and \<^verbatim>\<open>asyncio.open_unix_connection\<close>: the next answer of the
  network, a new reader and writer or an \<^verbatim>\<open>OSError\<close>.
\<close>

definition open_connection :: "Connection \<Rightarrow> (error + unit) \<times> Connection" where
  "open_connection c =
     (case network c of
        [] \<Rightarrow> (Inl OSError, c)
      | None # net \<Rightarrow> (Inl OSError, c\<lparr>network := net\<rparr>)
      | Some rd # net \<Rightarrow>
          (Inr (), c\<lparr>reader := Some rd, writer := Some StreamWriter, network := net,
                      io_trace := io_trace c @ [Opened]\<rparr>))"

text \<open>
  The \<^verbatim>\<open>try\<close> block of \<^verbatim>\<open>Connection.connect\<close>. Both branches of its first test open a
  stream and differ in \<^verbatim>\<open>host_info\<close> only.
\<close>

definition connect_body :: "library \<Rightarrow> Connection \<Rightarrow> (error + unit) \<times> Connection" where
  "connect_body L c =
     (case open_connection c of
        (Inl e, c1) \<Rightarrow> (Inl e, c1)
      | (Inr u, c1) \<Rightarrow>
     (case get_server_information L c1 of
        (Inl e, c2) \<Rightarrow> (Inl e, c2)
      | (Inr u, c2) \<Rightarrow>
     (case request_authentication L c2 of
        (Inl e, c3) \<Rightarrow> (Inl e, c3)
      | (Inr u, c3) \<Rightarrow>
     (case (case sql_mode c3 of
              None \<Rightarrow> (Inr None, c3)
            | Some m \<Rightarrow> query L (Str (str ''SET sql_mode='' @ m)) False c3) of
        (Inl e, c4) \<Rightarrow> (Inl e, c4)
      | (Inr n, c4) \<Rightarrow>
     (case (case init_command c4 of
              None \<Rightarrow> (Inr True, c4)
            | Some cmd \<Rightarrow>
                (case query L (Str cmd) False c4 of
                   (Inl e, c5) \<Rightarrow> (Inl e, c5)
                 | (Inr n, c5) \<Rightarrow> commit L c5)) of
        (Inl e, c5) \<Rightarrow> (Inl e, c5)
      | (Inr b, c5) \<Rightarrow>
          (case autocommit_mode c5 of
             None \<Rightarrow> (Inr (), c5)
           | Some v \<Rightarrow> autocommit L v c5))))))"

text \<open>\<^verbatim>\<open>Connection.connect\<close>: an \<^verbatim>\<open>OSError\<close> clears reader and writer.\<close>

definition connect :: "library \<Rightarrow> Connection \<Rightarrow> (error + unit) \<times> Connection" where
  "connect L c =
     (case connect_body L c of
        (Inl e, c1) \<Rightarrow>
          if e = OSError
          then (Inl (OperationalError 2003), c1\<lparr>reader := None, writer := None\<rparr>)
          else (Inl e, c1)
      | (Inr u, c1) \<Rightarrow> (Inr (), c1))"

text \<open>
  \<^verbatim>\<open>Connection.ping\<close>. \<open>ping_try\<close> is its \<^verbatim>\<open>try\<close> block, \<open>ping_once\<close> is
  \<^verbatim>\<open>ping(False)\<close>, which the function calls from its \<^verbatim>\<open>except\<close> clause.
\<close>

definition ping_try :: "library \<Rightarrow> Connection \<Rightarrow> (error + unit) \<times> Connection" where
  "ping_try L c =
     (case execute_command L COM_PING (Str []) c of
        (Inl e, c1) \<Rightarrow> (Inl e, c1)
      | (Inr u, c1) \<Rightarrow>
          (case read_ok_packet L c1 of
             (Inl e, c2) \<Rightarrow> (Inl e, c2)
           | (Inr b, c2) \<Rightarrow> (Inr (), c2)))"

definition ping_once :: "library \<Rightarrow> Connection \<Rightarrow> (error + unit) \<times> Connection" where
  "ping_once L c =
     (if writer c \<noteq> None \<and> reader c = None then (Inl Error, c)
      else ping_try L c)"

definition ping :: "library \<Rightarrow> bool \<Rightarrow> Connection \<Rightarrow> (error + unit) \<times> Connection" where
  "ping L reconnect c =
     (if \<not> reconnect then ping_once L c
      else
        (case (if writer c \<noteq> None \<and> reader c = None
               then (case connect L c of
                       (Inl e, c1) \<Rightarrow> (Inl e, c1)
                     | (Inr u, c1) \<Rightarrow> (Inr False, c1))
               else (Inr True, c)) of
           (Inl e, c1) \<Rightarrow> (Inl e, c1)
         | (Inr reconnect', c1) \<Rightarrow>
             (case ping_try L c1 of
                (Inr u, c2) \<Rightarrow> (Inr (), c2)
              | (Inl e, c2) \<Rightarrow>
                  if reconnect'
                  then (case connect L c2 of
                          (Inl e', c3) \<Rightarrow> (Inl e', c3)
                        | (Inr u, c3) \<Rightarrow> ping_once L c3)
                  else (Inl e, c2))))"


section \<open>An instance of the imported names\<close>

text \<open>
  The examples below need the imported names at concrete values. This instance follows the
  MySQL wire format as section 6 of the spec gives it: an error packet starts with 0xFF,
  an OK packet with 0x00, an EOF marker is a packet of fewer than nine bytes starting with
  0xFE, and a length-encoded value starts with its length, 0xFB standing for NULL and 0xFC,
  0xFD, 0xFE announcing a length of two, three or eight bytes. The codecs are Latin-1, ASCII
  and UTF-8. The two scrambles are SHA-1 digests, which are outside this development: the
  instance gives them the right length and no example depends on their bytes.
\<close>

fun utf8_decode :: "bytes \<Rightarrow> error + pystr" where
  "utf8_decode [] = Inr []"
| "utf8_decode (b # bs) =
     (let n = unat b;
          cont = (\<lambda>x. 128 \<le> unat x \<and> unat x \<le> 191);
          tail = (\<lambda>x. unat x - 128)
      in if n < 128 then
           (case utf8_decode bs of Inl e \<Rightarrow> Inl e | Inr s \<Rightarrow> Inr (n # s))
         else if 194 \<le> n \<and> n \<le> 223 then
           (case bs of
              c1 # bs1 \<Rightarrow>
                if cont c1
                then (case utf8_decode bs1 of
                        Inl e \<Rightarrow> Inl e
                      | Inr s \<Rightarrow> Inr (((n - 192) * 64 + tail c1) # s))
                else Inl UnicodeError
            | _ \<Rightarrow> Inl UnicodeError)
         else if 224 \<le> n \<and> n \<le> 239 then
           (case bs of
              c1 # c2 # bs2 \<Rightarrow>
                if cont c1 \<and> cont c2 \<and> (n = 224 \<longrightarrow> 160 \<le> unat c1)
                   \<and> (n = 237 \<longrightarrow> unat c1 \<le> 159)
                then (case utf8_decode bs2 of
                        Inl e \<Rightarrow> Inl e
                      | Inr s \<Rightarrow> Inr (((n - 224) * 4096 + tail c1 * 64 + tail c2) # s))
                else Inl UnicodeError
            | _ \<Rightarrow> Inl UnicodeError)
         else if 240 \<le> n \<and> n \<le> 244 then
           (case bs of
              c1 # c2 # c3 # bs3 \<Rightarrow>
                if cont c1 \<and> cont c2 \<and> cont c3 \<and> (n = 240 \<longrightarrow> 144 \<le> unat c1)
                   \<and> (n = 244 \<longrightarrow> unat c1 \<le> 143)
                then (case utf8_decode bs3 of
                        Inl e \<Rightarrow> Inl e
                      | Inr s \<Rightarrow>
                          Inr (((n - 240) * 262144 + tail c1 * 4096 + tail c2 * 64 + tail c3) # s))
                else Inl UnicodeError
            | _ \<Rightarrow> Inl UnicodeError)
         else Inl UnicodeError)"

fun utf8_encode :: "pystr \<Rightarrow> error + bytes" where
  "utf8_encode [] = Inr []"
| "utf8_encode (cp # s) =
     (case (if cp < 128 then Inr [of_nat cp]
            else if cp < 2048 then Inr [of_nat (192 + cp div 64), of_nat (128 + cp mod 64)]
            else if 55296 \<le> cp \<and> cp \<le> 57343 then Inl UnicodeError
            else if cp < 65536 then
              Inr [of_nat (224 + cp div 4096), of_nat (128 + cp div 64 mod 64),
                   of_nat (128 + cp mod 64)]
            else if cp < 1114112 then
              Inr [of_nat (240 + cp div 262144), of_nat (128 + cp div 4096 mod 64),
                   of_nat (128 + cp div 64 mod 64), of_nat (128 + cp mod 64)]
            else Inl UnicodeError) of
        Inl e \<Rightarrow> Inl e
      | Inr bs \<Rightarrow> (case utf8_encode s of Inl e \<Rightarrow> Inl e | Inr r \<Rightarrow> Inr (bs @ r)))"

definition codec_decode :: "pystr \<Rightarrow> bytes \<Rightarrow> error + pystr" where
  "codec_decode enc b =
     (if enc = str ''utf-8'' \<or> enc = str ''utf8'' then utf8_decode b
      else if enc = str ''latin1'' then Inr (map unat b)
      else if enc = str ''ascii''
      then (if \<forall>x \<in> set b. unat x < 128 then Inr (map unat b) else Inl UnicodeError)
      else Inl LookupError)"

definition codec_encode :: "pystr \<Rightarrow> pystr \<Rightarrow> error + bytes" where
  "codec_encode enc s =
     (if enc = str ''utf-8'' \<or> enc = str ''utf8'' then utf8_encode s
      else if enc = str ''latin1''
      then (if \<forall>cp \<in> set s. cp < 256 then Inr (map of_nat s) else Inl UnicodeError)
      else if enc = str ''ascii''
      then (if \<forall>cp \<in> set s. cp < 128 then Inr (map of_nat s) else Inl UnicodeError)
      else Inl LookupError)"

text \<open>A length-encoded integer at position \<open>pos\<close>: the value and the position after it.\<close>

definition length_encoded_integer :: "bytes \<Rightarrow> nat \<Rightarrow> error + nat option \<times> nat" where
  "length_encoded_integer data pos =
     (case drop pos data of
        [] \<Rightarrow> Inl StructError
      | b # rest \<Rightarrow>
          (let n = unat b;
               wide = (\<lambda>w. if w \<le> length rest
                           then Inr (Some (unpack_le (take w rest)), pos + 1 + w)
                           else Inl StructError)
           in if n = 251 then Inr (None, pos + 1)
              else if n < 251 then Inr (Some n, pos + 1)
              else if n = 252 then wide 2
              else if n = 253 then wide 3
              else if n = 254 then wide 8
              else Inr (None, pos + 1)))"

definition length_coded_string :: "bytes \<Rightarrow> nat \<Rightarrow> error + bytes option \<times> nat" where
  "length_coded_string data pos =
     (case length_encoded_integer data pos of
        Inl e \<Rightarrow> Inl e
      | Inr (None, pos') \<Rightarrow> Inr (None, pos')
      | Inr (Some n, pos') \<Rightarrow> Inr (Some (take n (drop pos' data)), pos' + n))"

definition parse_ok_packet :: "bytes \<Rightarrow> error + ok_packet" where
  "parse_ok_packet data =
     (case length_encoded_integer data 1 of
        Inl e \<Rightarrow> Inl e
      | Inr (ar, p1) \<Rightarrow>
          (case length_encoded_integer data p1 of
             Inl e \<Rightarrow> Inl e
           | Inr (iid, p2) \<Rightarrow>
               (case struct_unpack 2 (take 2 (drop p2 data)) of
                  Inl e \<Rightarrow> Inl e
                | Inr st \<Rightarrow>
                    (case struct_unpack 2 (take 2 (drop (p2 + 2) data)) of
                       Inl e \<Rightarrow> Inl e
                     | Inr wc \<Rightarrow>
                         Inr \<lparr> ok_affected_rows = (case ar of None \<Rightarrow> 0 | Some n \<Rightarrow> n),
                               ok_insert_id = (case iid of None \<Rightarrow> 0 | Some n \<Rightarrow> n),
                               ok_server_status = st,
                               ok_warning_count = wc,
                               ok_message = drop (p2 + 4) data,
                               ok_has_next = (st AND 8 \<noteq> 0) \<rparr>))))"

definition parse_eof_packet :: "bytes \<Rightarrow> error + eof_packet" where
  "parse_eof_packet data =
     (case struct_unpack 2 (take 2 (drop 1 data)) of
        Inl e \<Rightarrow> Inl e
      | Inr wc \<Rightarrow>
          (case struct_unpack 2 (take 2 (drop 3 data)) of
             Inl e \<Rightarrow> Inl e
           | Inr st \<Rightarrow> Inr \<lparr> eof_warning_count = wc, eof_has_next = (st AND 8 \<noteq> 0) \<rparr>))"

text \<open>
  A field descriptor: catalog, schema, table, original table, name and original name as
  length-coded strings, a filler byte, then character set (2 bytes), column length (4),
  type code (1), flags (2) and decimals (1).
\<close>

definition skip_strings :: "nat \<Rightarrow> bytes \<Rightarrow> nat \<Rightarrow> error + bytes list \<times> nat" where
  "skip_strings k data pos =
     fold (\<lambda>_ acc. case acc of
                      Inl e \<Rightarrow> Inl e
                    | Inr (ss, p) \<Rightarrow>
                        (case length_coded_string data p of
                           Inl e \<Rightarrow> Inl e
                         | Inr (None, p') \<Rightarrow> Inl TypeError
                         | Inr (Some x, p') \<Rightarrow> Inr (ss @ [x], p')))
       (replicate k ()) (Inr ([], pos))"

definition parse_field_descriptor :: "bytes \<Rightarrow> pystr \<Rightarrow> error + field" where
  "parse_field_descriptor data enc =
     (case skip_strings 6 data 0 of
        Inl e \<Rightarrow> Inl e
      | Inr (ss, p) \<Rightarrow>
          (if length data < p + 11 then Inl StructError
           else (case codec_decode enc (ss ! 4) of
                   Inl e \<Rightarrow> Inl e
                 | Inr nm \<Rightarrow>
                     (case codec_decode enc (ss ! 2) of
                        Inl e \<Rightarrow> Inl e
                      | Inr tb \<Rightarrow>
                          Inr \<lparr> name = nm, table_name = tb,
                                type_code = unpack_le (take 1 (drop (p + 7) data)),
                                charsetnr = unpack_le (take 2 (drop (p + 1) data)),
                                column_length = unpack_le (take 4 (drop (p + 3) data)),
                                scale = unpack_le (take 1 (drop (p + 10) data)),
                                flags = unpack_le (take 2 (drop (p + 8) data)) \<rparr>))))"

definition latin1_charset :: charset where
  "latin1_charset = \<lparr> charset_id = 8, charset_name = str ''latin1'',
     charset_encoding = str ''latin1'', is_binary = False \<rparr>"

definition utf8_charset :: charset where
  "utf8_charset = \<lparr> charset_id = 33, charset_name = str ''utf8'',
     charset_encoding = str ''utf8'', is_binary = False \<rparr>"

definition binary_charset :: charset where
  "binary_charset = \<lparr> charset_id = 63, charset_name = str ''binary'',
     charset_encoding = str ''binary'', is_binary = True \<rparr>"

definition mysql_library :: library where
  "mysql_library = \<lparr>
     TEXT_TYPES = [16, 252, 251, 250, 254, 249, 253, 15],
     CAPABILITIES = 41477,
     MULTI_STATEMENTS = 65536,
     MULTI_RESULTS = 131072,
     CONNECT_WITH_DB = 8,
     SERVER_STATUS_AUTOCOMMIT = 2,
     DEFAULT_CHARSET = str ''latin1'',
     DEFAULT_USER = str ''mysql'',
     sys_platform = str ''linux'',
     config_get = (\<lambda>file group key. None),
     int_of_str = (\<lambda>s. None),
     charset_by_name = (\<lambda>nm. if nm = str ''latin1'' then Some latin1_charset
                              else if nm = str ''utf8'' then Some utf8_charset
                              else if nm = str ''binary'' then Some binary_charset
                              else None),
     charset_by_id = (\<lambda>n. if n = 8 then Some latin1_charset
                            else if n = 33 then Some utf8_charset
                            else if n = 63 then Some binary_charset
                            else None),
     check_error = (\<lambda>data. if take 1 data = [255] then Some (ServerError data) else None),
     is_ok_packet = (\<lambda>data. take 1 data = [0]),
     is_eof_packet = (\<lambda>data. take 1 data = [254] \<and> length data < 9),
     OKPacketWrapper = parse_ok_packet,
     EOFPacketWrapper = parse_eof_packet,
     FieldDescriptorPacket = parse_field_descriptor,
     description = (\<lambda>fd. [PyStr (name fd), PyInt (int (type_code fd)), PyNone,
                           PyInt (int (column_length fd)), PyInt (int (column_length fd)),
                           PyInt (int (scale fd)), PyBool (flags fd mod 2 = 0)]),
     read_length_encoded_integer = (\<lambda>data. case length_encoded_integer data 0 of
                                             Inl e \<Rightarrow> Inl e
                                           | Inr (n, p) \<Rightarrow> Inr n),
     read_length_coded_string = length_coded_string,
     scramble = (\<lambda>pw slt. if pw = [] then [0] else 20 # replicate 20 0),
     scramble_323 = (\<lambda>pw slt. if pw = [] then [] else replicate 8 0),
     escape_item = (\<lambda>v cs. case v of
                              PyBool b \<Rightarrow> str (if b then ''1'' else ''0'')
                            | PyNone \<Rightarrow> str ''NULL''
                            | _ \<Rightarrow> []),
     encode = codec_encode,
     decode = codec_decode \<rparr>"


definition new_connection :: Connection where
  "new_connection = \<lparr>
     host = str ''localhost'', port = 3306, user = Some (Str (str ''mysql'')), password = [],
     db = None, unix_socket = None, charset = str ''latin1'', use_unicode = True,
     encoding = str ''latin1'', client_flag = 107013, result = None,
     conn_affected_rows = Some 0, autocommit_mode = Some False, decoders = (\<lambda>t. None),
     sql_mode = None, init_command = None, reader = None, writer = None,
     protocol_version = None, server_version = None, server_thread_id = None, salt = None,
     server_capabilities = None, server_language = None, server_charset = None,
     conn_server_status = None, io_trace = [], network = [] \<rparr>"

text \<open>The same Connection once a stream is open, with \<open>input\<close> what the server will send.\<close>

definition connected :: "bytes \<Rightarrow> Connection" where
  "connected input = new_connection\<lparr>reader := Some \<lparr>buffer = input, broken = False\<rparr>,
     writer := Some StreamWriter, io_trace := [Opened]\<rparr>"


text \<open>One frame: a 3-byte length, a sequence number and the payload.\<close>

definition frame :: "nat \<Rightarrow> bytes \<Rightarrow> bytes" where
  "frame seq_id payload = take 3 (pack_le 4 (length payload)) @ [of_nat seq_id] @ payload"

text \<open>
  A greeting for protocol version 10, server version \<^verbatim>\<open>5.7.10\<close>, thread id 42 and the salt
  1 to 8, followed by the filler byte and the two bytes of the lower capabilities, and
  nothing else.
\<close>

definition greeting_without_extended :: bytes where
  "greeting_without_extended =
     [10, 53, 46, 55, 46, 49, 48, 0, 42, 0, 0, 0, 1, 2, 3, 4, 5, 6, 7, 8, 0, 255, 247]"

text \<open>
  What a server answers to \<^verbatim>\<open>SELECT 1\<close>: the column count, one field descriptor (catalog
  \<^verbatim>\<open>def\<close>, name \<^verbatim>\<open>1\<close>, binary character set, type code 8), an EOF marker, the row
  \<^verbatim>\<open>1\<close> and the closing EOF marker.
\<close>

definition select_1_descriptor :: bytes where
  "select_1_descriptor =
     [3, 100, 101, 102, 0, 0, 0, 1, 49, 0, 12, 63, 0, 1, 0, 0, 0, 8, 129, 0, 0, 0, 0]"

definition eof_marker :: bytes where
  "eof_marker = [254, 0, 0, 2, 0]"

definition select_1_rows :: bytes where
  "select_1_rows = frame 4 [1, 49] @ frame 5 eof_marker"

definition select_1_response :: bytes where
  "select_1_response =
     frame 1 [1] @ frame 2 select_1_descriptor @ frame 3 eof_marker @ select_1_rows"

text \<open>
  The Connection as \<^verbatim>\<open>query("SELECT 1", unbuffered=True)\<close> leaves it, on a new stream on
  which the server gives that answer.
\<close>

definition after_streaming_query :: Connection where
  "after_streaming_query =
     snd (query mysql_library (Str (str ''SELECT 1'')) True (connected select_1_response))"


text \<open>A text column in UTF-8 and an enumeration column in Latin-1.\<close>

definition varchar_field :: field where
  "varchar_field = \<lparr> name = str ''v'', table_name = str ''t'', type_code = 253,
     charsetnr = 33, column_length = 30, scale = 0, flags = 0 \<rparr>"

definition enum_field :: field where
  "enum_field = \<lparr> name = str ''e'', table_name = str ''t'', type_code = 247,
     charsetnr = 8, column_length = 1, scale = 0, flags = 256 \<rparr>"

text \<open>
  The field that descriptor describes, a result that has read it, in the buffered and in
  the streaming mode, and a stream of two rows and the closing EOF marker.
\<close>

definition select_1_field :: field where
  "select_1_field = \<lparr> name = str ''1'', table_name = [], type_code = 8, charsetnr = 63,
     column_length = 1, scale = 0, flags = 129 \<rparr>"

definition buffered_result :: MySQLResult where
  "buffered_result = MySQLResult_init\<lparr>field_count := Some 1,
     result_fields := Some [select_1_field]\<rparr>"

definition described_streaming_result :: MySQLResult where
  "described_streaming_result = buffered_result\<lparr>unbuffered_active := True,
     affected_rows := Some 18446744073709551615\<rparr>"

definition two_rows :: bytes where
  "two_rows = frame 4 [1, 49] @ frame 5 [1, 50] @ frame 6 eof_marker"


definition ok_packet_bytes :: bytes where
  "ok_packet_bytes = [0, 0, 0, 0, 0, 0, 0]"









text \<open>
  \<open>keeps c c'\<close>: from \<open>c\<close> to \<open>c'\<close> the writer is the same, and a reader that was set is
  still set.
\<close>

definition keeps :: "Connection \<Rightarrow> Connection \<Rightarrow> bool" where
  "keeps c c' \<longleftrightarrow> writer c' = writer c \<and> (reader c \<noteq> None \<longrightarrow> reader c' \<noteq> None)"

text \<open>
  \<open>reads_only c c'\<close>: from \<open>c\<close> to \<open>c'\<close> the Connection only read from its transport. The
  trace grew by \<^verbatim>\<open>readexactly\<close> results, and no attribute but the reader changed.
\<close>

definition reads_only :: "Connection \<Rightarrow> Connection \<Rightarrow> bool" where
  "reads_only c c' \<longleftrightarrow>
     (\<exists>rs. io_trace c' = io_trace c @ map Recv rs) \<and>
     (\<exists>rd tr. c' = c\<lparr>reader := rd, io_trace := tr\<rparr>)"

section \<open>Frames: headers, one frame read, the frames of a command\<close>

lemma le24_arith:
  fixes n :: nat
  shows "n mod 256 + 256 * (n div 256 mod 256 + 256 * (n div 65536)) = n"
proof -
  have a: "n mod 256 + 256 * (n div 256) = n"
    by (rule mod_mult_div_eq)
  have b: "n div 256 mod 256 + 256 * (n div 256 div 256) = n div 256"
    by (rule mod_mult_div_eq)
  have c: "n div 256 div 256 = n div 65536"
    by (simp add: div_mult2_eq)
  from a b c show ?thesis by simp
qed

lemma pack_le_4:
  "pack_le 4 n = [of_nat (n mod 256), of_nat (n div 256 mod 256),
      of_nat (n div 65536 mod 256), of_nat (n div 16777216 mod 256)]"
proof -
  have "pack_le (Suc (Suc (Suc (Suc 0)))) n = [of_nat (n mod 256), of_nat (n div 256 mod 256),
      of_nat (n div 65536 mod 256), of_nat (n div 16777216 mod 256)]"
  proof -
    have a: "n div 256 div 256 = n div 65536"
      by (simp add: div_mult2_eq)
    have b: "n div 65536 div 256 = n div 16777216"
      by (simp add: div_mult2_eq)
    show ?thesis
      by (simp add: a b)
  qed
  moreover have "(4::nat) = Suc (Suc (Suc (Suc 0)))"
    by simp
  ultimately show ?thesis
    by (simp only:)
qed

lemma unpack_le_3:
  "unpack_le [a, b, c, 0] = unat a + 256 * (unat b + 256 * unat c)"
  by simp

lemma unat_byte: "unat (of_nat m :: byte) = m mod 256"
  by (simp add: unat_of_nat)

lemma header_roundtrip:
  assumes "n < 16777216"
  shows "unpack_le (take 3 (pack_le 4 n) @ [0]) = n"
proof -
  have b: "n div 65536 mod 256 = n div 65536" using assms by simp
  have "unpack_le (take 3 (pack_le 4 n) @ [0]) =
     n mod 256 + 256 * (n div 256 mod 256 + 256 * (n div 65536))"
    unfolding pack_le_4 by (simp only: take_Suc_Cons take_0 numeral_3_eq_3 append_Cons append_Nil unpack_le_3 unat_byte mod_mod_trivial b)
  then show ?thesis by (simp only: le24_arith)
qed

lemma pack_le_small:
  assumes "n < 16777216"
  shows "take 3 (pack_le 4 n) @ [0] = pack_le 4 n"
proof -
  have "n div 16777216 = 0" using assms by simp
  then show ?thesis unfolding pack_le_4 by simp
qed


lemma write_bytes_open:
  "writer c \<noteq> None \<Longrightarrow> write_bytes d c = (Inr (), c\<lparr>io_trace := io_trace c @ [Send d]\<rparr>)"
  by (auto simp: write_bytes_def split: option.splits)

lemma length_pack_le [simp]: "length (pack_le w n) = w"
  by (induction w arbitrary: n) simp_all

lemma read_frame_step:
  assumes rd: "reader p = Some rd"
    and buf: "buffer rd = take 3 (pack_le 4 n) @ [s] @ payload @ rest"
    and len: "length payload = n" and n: "n < 16777216"
  shows "read_packet_loop buff p =
     (let p1 = p\<lparr>reader := Some (rd\<lparr>buffer := rest\<rparr>),
                   io_trace := io_trace p @ [Recv (take 3 (pack_le 4 n) @ [s]), Recv payload]\<rparr>
      in if n < MAX_PACKET_LEN then (Inr (buff @ payload), p1)
         else read_packet_loop (buff @ payload) p1)"
proof -
  let ?h = "take 3 (pack_le 4 n) @ [s]"
  let ?p0 = "p\<lparr>reader := Some (rd\<lparr>buffer := payload @ rest\<rparr>), io_trace := io_trace p @ [Recv ?h]\<rparr>"
  have h4: "length ?h = 4" by simp
  have r1: "readexactly 4 p = (Inr ?h, ?p0)"
    using rd buf by (simp add: readexactly_def)
  have t3: "take 3 ?h = take 3 (pack_le 4 n)" by simp
  have r2: "readexactly n ?p0 = (Inr payload,
      p\<lparr>reader := Some (rd\<lparr>buffer := rest\<rparr>), io_trace := io_trace p @ [Recv ?h, Recv payload]\<rparr>)"
    using len by (simp add: readexactly_def)
  show ?thesis
    by (subst read_packet_loop.simps) (simp only: r1 r2 t3 header_roundtrip [OF n] Let_def prod.case sum.case)
qed


lemma MAX_bounds: "MAX_PACKET_LEN < 16777216" "0 < MAX_PACKET_LEN"
  by (simp_all add: MAX_PACKET_LEN_def)

lemma pack_le_zero: "take 3 (pack_le 4 0) = [0, 0, 0]"
  by (simp add: pack_le_4)

lemma execute_command_loop_multiple:
  assumes "writer c \<noteq> None" and "length sql = j * MAX_PACKET_LEN"
  shows "\<exists>frames.
      execute_command_loop seq_id sql c = (Inr (), c\<lparr>io_trace := io_trace c @ map Send frames\<rparr>)
    \<and> length frames = j + 1
    \<and> take 3 (last frames) = [0, 0, 0] \<and> length (last frames) = 4
    \<and> (\<forall>buff p rd. reader p = Some rd \<longrightarrow> buffer rd = concat frames \<longrightarrow>
          fst (read_packet_loop buff p) = Inr (buff @ sql)
        \<and> buffer_len (snd (read_packet_loop buff p)) = 0)"
  using assms
proof (induction j arbitrary: seq_id sql c)
  case 0
  then have sql: "sql = []" by simp
  let ?d = "take 3 (pack_le 4 0) @ [of_nat (seq_id mod 256)]"
  have ex: "execute_command_loop seq_id sql c = (Inr (), c\<lparr>io_trace := io_trace c @ map Send [?d]\<rparr>)"
    using "0.prems"(1) MAX_bounds
    by (subst execute_command_loop.simps) (simp add: sql write_bytes_open Let_def)
  have rdp: "fst (read_packet_loop buff p) = Inr (buff @ sql)
        \<and> buffer_len (snd (read_packet_loop buff p)) = 0"
    if "reader p = Some rd" "buffer rd = concat [?d]" for buff p rd
    using read_frame_step [of p rd 0 "of_nat (seq_id mod 256)" "[]" "[]" buff] that MAX_bounds
    by (simp add: sql Let_def buffer_len_def)
  show ?case
    apply (rule exI [of _ "[?d]"])
    using ex rdp by (simp add: pack_le_zero)
next
  case (Suc j)
  let ?M = MAX_PACKET_LEN
  have len: "length sql = ?M + j * ?M" using Suc.prems by simp
  then have chunk: "min ?M (length sql) = ?M" by simp
  let ?d = "take 3 (pack_le 4 ?M) @ [of_nat (seq_id mod 256)] @ take ?M sql"
  let ?c1 = "c\<lparr>io_trace := io_trace c @ [Send ?d]\<rparr>"
  have w1: "writer ?c1 \<noteq> None" using Suc.prems by simp
  have l1: "length (drop ?M sql) = j * ?M" using len by simp
  from Suc.IH [OF w1 l1, of "seq_id + 1"] obtain frames where
    fr: "execute_command_loop (seq_id + 1) (drop ?M sql) ?c1
           = (Inr (), ?c1\<lparr>io_trace := io_trace ?c1 @ map Send frames\<rparr>)"
      "length frames = j + 1" "take 3 (last frames) = [0, 0, 0]" "length (last frames) = 4"
      "\<And>buff p rd. reader p = Some rd \<Longrightarrow> buffer rd = concat frames \<Longrightarrow>
          fst (read_packet_loop buff p) = Inr (buff @ drop ?M sql)
        \<and> buffer_len (snd (read_packet_loop buff p)) = 0"
    by blast
  have ne: "frames \<noteq> []" using fr(2) by auto
  have ex: "execute_command_loop seq_id sql c
      = (Inr (), c\<lparr>io_trace := io_trace c @ map Send (?d # frames)\<rparr>)"
    using Suc.prems(1) fr(1)
    by (subst execute_command_loop.simps) (simp add: chunk write_bytes_open Let_def)
  have rdp: "fst (read_packet_loop buff p) = Inr (buff @ sql)
        \<and> buffer_len (snd (read_packet_loop buff p)) = 0"
    if h: "reader p = Some rd" "buffer rd = concat (?d # frames)" for buff p rd
  proof -
    let ?p1 = "p\<lparr>reader := Some (rd\<lparr>buffer := concat frames\<rparr>),
        io_trace := io_trace p @ [Recv (take 3 (pack_le 4 ?M) @ [of_nat (seq_id mod 256)]),
                                  Recv (take ?M sql)]\<rparr>"
    have "read_packet_loop buff p = read_packet_loop (buff @ take ?M sql) ?p1"
      using read_frame_step [of p rd ?M "of_nat (seq_id mod 256)" "take ?M sql" "concat frames" buff]
        h MAX_bounds len by (simp add: Let_def)
    moreover have "fst (read_packet_loop (buff @ take ?M sql) ?p1) = Inr ((buff @ take ?M sql) @ drop ?M sql)
        \<and> buffer_len (snd (read_packet_loop (buff @ take ?M sql) ?p1)) = 0"
      by (rule fr(5) [of ?p1 "rd\<lparr>buffer := concat frames\<rparr>"]) simp_all
    ultimately show ?thesis by simp
  qed
  show ?case
    apply (rule exI [of _ "?d # frames"])
    using ex rdp fr(2,3,4) ne by simp
qed


lemma read_packet_of_loop:
  "fst (read_packet_loop [] p) = Inr P \<Longrightarrow> check_error L P = None \<Longrightarrow>
   fst (read_packet L p) = Inr P"
  by (cases "read_packet_loop [] p") (simp add: read_packet_def)


lemma read_packet_frame:
  assumes "reader p = Some rd" and "buffer rd = frame s payload @ rest"
    and "length payload < MAX_PACKET_LEN"
  shows "read_packet L p =
     (let p1 = p\<lparr>reader := Some (rd\<lparr>buffer := rest\<rparr>),
                  io_trace := io_trace p @ [Recv (take 3 (pack_le 4 (length payload)) @ [of_nat s]), Recv payload]\<rparr>
      in case check_error L payload of Some e \<Rightarrow> (Inl e, p1) | None \<Rightarrow> (Inr payload, p1))"
proof -
  have n: "length payload < 16777216" using assms(3) MAX_bounds by simp
  have b: "buffer rd = take 3 (pack_le 4 (length payload)) @ [of_nat s] @ payload @ rest"
    using assms(2) by (simp add: frame_def)
  show ?thesis
    unfolding read_packet_def read_frame_step [OF assms(1) b refl n, of "[]"]
    using assms(3) by (simp add: Let_def)
qed

section \<open>Reading changes nothing but the reader\<close>

lemma reads_only_refl: "reads_only c c"
proof -
  have "io_trace c = io_trace c @ map Recv []" by simp
  moreover have "c = c\<lparr>reader := reader c, io_trace := io_trace c\<rparr>" by simp
  ultimately show ?thesis unfolding reads_only_def by blast
qed

lemma reads_only_trans:
  assumes "reads_only a b" and "reads_only b c"
  shows "reads_only a c"
proof -
  from assms obtain r1 r2 where "io_trace b = io_trace a @ map Recv r1"
    "io_trace c = io_trace b @ map Recv r2"
    unfolding reads_only_def by blast
  then have "io_trace c = io_trace a @ map Recv (r1 @ r2)" by simp
  moreover from assms obtain rd1 tr1 rd2 tr2 where
    "b = a\<lparr>reader := rd1, io_trace := tr1\<rparr>" "c = b\<lparr>reader := rd2, io_trace := tr2\<rparr>"
    unfolding reads_only_def by blast
  then have "c = a\<lparr>reader := rd2, io_trace := tr2\<rparr>" by simp
  ultimately show ?thesis unfolding reads_only_def by blast
qed

lemma reads_only_fields:
  assumes "reads_only c c'"
  shows "writer c' = writer c" "result c' = result c" "encoding c' = encoding c"
    "network c' = network c" "user c' = user c"
  using assms unfolding reads_only_def by auto

lemma readexactly_reads_only: "readexactly n c = (x, c') \<Longrightarrow> reads_only c c'"
proof (cases "reader c")
  case None
  assume "readexactly n c = (x, c')"
  with None have "c' = c" by (simp add: readexactly_def)
  then show ?thesis by (simp add: reads_only_refl)
next
  case (Some rd)
  assume h: "readexactly n c = (x, c')"
  show ?thesis
  proof (cases "n \<le> length (buffer rd)")
    case True
    with h Some have c': "c' = c\<lparr>reader := Some (rd\<lparr>buffer := drop n (buffer rd)\<rparr>),
                  io_trace := io_trace c @ [Recv (take n (buffer rd))]\<rparr>"
      by (simp add: readexactly_def)
    then have "io_trace c' = io_trace c @ map Recv [take n (buffer rd)]" by simp
    with c' show ?thesis unfolding reads_only_def by blast
  next
    case False
    with h Some have c': "c' = c\<lparr>reader := Some (rd\<lparr>buffer := []\<rparr>)\<rparr>"
      by (simp add: readexactly_def)
    then have "io_trace c' = io_trace c @ map Recv []" by simp
    moreover from c' have "c' = c\<lparr>reader := Some (rd\<lparr>buffer := []\<rparr>), io_trace := io_trace c\<rparr>"
      by simp
    ultimately show ?thesis unfolding reads_only_def by blast
  qed
qed

lemma read_packet_loop_reads_only:
  "read_packet_loop buff c = (x, c') \<Longrightarrow> reads_only c c'"
proof (induction buff c arbitrary: x c' rule: read_packet_loop.induct)
  case (1 buff c)
  obtain x1 c1 where r1: "readexactly 4 c = (x1, c1)"
    by (cases "readexactly 4 c")
  have s1: "reads_only c c1" using r1 by (rule readexactly_reads_only)
  show ?case
  proof (cases x1)
    case (Inl e)
    with "1.prems" r1 have "c' = c1"
      by (simp add: read_packet_loop.simps [of buff c])
    with s1 show ?thesis by simp
  next
    case (Inr hd)
    define n where "n = unpack_le (take 3 hd @ [0])"
    obtain x2 c2 where r2: "readexactly n c1 = (x2, c2)"
      by (cases "readexactly n c1")
    have s2: "reads_only c c2"
      using s1 readexactly_reads_only [OF r2] by (rule reads_only_trans)
    show ?thesis
    proof (cases x2)
      case (Inl e)
      with "1.prems" r1 r2 Inr have "c' = c2"
        by (simp add: read_packet_loop.simps [of buff c] n_def Let_def)
      with s2 show ?thesis by simp
    next
      case d: (Inr d)
      show ?thesis
      proof (cases "n < MAX_PACKET_LEN")
        case True
        with "1.prems" r1 r2 Inr d have "c' = c2"
          by (simp add: read_packet_loop.simps [of buff c] n_def Let_def)
        with s2 show ?thesis by simp
      next
        case False
        with "1.prems" r1 r2 Inr d have "read_packet_loop (buff @ d) c2 = (x, c')"
          by (simp add: read_packet_loop.simps [of buff c] n_def Let_def)
        then have "reads_only c2 c'"
          by (rule "1.IH" [OF r1 [symmetric] Inr n_def r2 [symmetric] d False])
        with s2 show ?thesis by (rule reads_only_trans)
      qed
    qed
  qed
qed

lemma read_packet_reads_only: "read_packet L c = (x, c') \<Longrightarrow> reads_only c c'"
  by (auto simp: read_packet_def split: prod.splits sum.splits option.splits
      dest: read_packet_loop_reads_only)



section \<open>Framing a command and reassembling it\<close>

text \<open>
  C2, amended. The payload the command writer frames is the command byte followed by the
  body, so it is never empty. Whenever its length is \<open>k\<close> times 0xFFFFFF (which makes \<open>k\<close>
  at least 1) and no streaming result is pending, \<^verbatim>\<open>_execute_command\<close> succeeds and writes
  exactly \<open>k + 1\<close> frames, the last one a header of length zero with no payload. A reader
  that receives those frames reassembles the payload exactly and consumes every byte; and
  \<^verbatim>\<open>_read_packet\<close> returns it unless \<^verbatim>\<open>check_error\<close> takes the payload for an error packet.
\<close>

theorem execute_command_frames_roundtrip:
  assumes w: "writer c \<noteq> None"
    and inactive: "\<forall>r. result c = Some r \<longrightarrow> \<not> unbuffered_active r"
    and len: "length (command # sql) = k * MAX_PACKET_LEN"
  shows "\<exists>frames.
      execute_command L command (Bytes sql) c
        = (Inr (), c\<lparr>io_trace := io_trace c @ map Send frames\<rparr>)
    \<and> length frames = k + 1
    \<and> take 3 (last frames) = [0, 0, 0] \<and> length (last frames) = 4
    \<and> (\<forall>p rd. reader p = Some rd \<longrightarrow> buffer rd = concat frames \<longrightarrow>
          fst (read_packet_loop [] p) = Inr (command # sql)
        \<and> buffer_len (snd (read_packet_loop [] p)) = 0
        \<and> (check_error L (command # sql) = None \<longrightarrow>
             fst (read_packet L p) = Inr (command # sql)))"
proof -
  let ?M = MAX_PACKET_LEN
  from len obtain j where k: "k = Suc j"
    by (cases k) simp_all
  have lsql: "length sql + 1 = ?M + j * ?M" using len k by simp
  then have chunk: "min ?M (Suc (length sql)) = ?M" by simp
  let ?d = "pack_le 4 ?M @ [command] @ take (?M - 1) sql"
  let ?c1 = "c\<lparr>io_trace := io_trace c @ [Send ?d]\<rparr>"
  have w1: "writer ?c1 \<noteq> None" using w by simp
  have l1: "length (drop (?M - 1) sql) = j * ?M" using lsql MAX_bounds by simp
  from execute_command_loop_multiple [OF w1 l1, of 1] obtain frames where
    fr: "execute_command_loop 1 (drop (?M - 1) sql) ?c1
           = (Inr (), ?c1\<lparr>io_trace := io_trace ?c1 @ map Send frames\<rparr>)"
      "length frames = j + 1" "take 3 (last frames) = [0, 0, 0]" "length (last frames) = 4"
      "\<And>buff p rd. reader p = Some rd \<Longrightarrow> buffer rd = concat frames \<Longrightarrow>
          fst (read_packet_loop buff p) = Inr (buff @ drop (?M - 1) sql)
        \<and> buffer_len (snd (read_packet_loop buff p)) = 0"
    by blast
  have ne: "frames \<noteq> []" using fr(2) by auto
  have drain: "(case result c of None \<Rightarrow> (Inr (), c)
      | Some r \<Rightarrow> if unbuffered_active r
          then (case finish_unbuffered_query L r c of (x, r1, c1) \<Rightarrow> (x, c1\<lparr>result := Some r1\<rparr>))
          else (Inr (), c)) = (Inr (), c)"
    using inactive by (cases "result c") simp_all
  have ex: "execute_command L command (Bytes sql) c
      = (Inr (), c\<lparr>io_trace := io_trace c @ map Send (?d # frames)\<rparr>)"
    using w fr(1) unfolding execute_command_def drain
    by (simp add: chunk write_bytes_open Let_def)
  have rdp: "fst (read_packet_loop [] p) = Inr (command # sql)
        \<and> buffer_len (snd (read_packet_loop [] p)) = 0"
    if h: "reader p = Some rd" "buffer rd = concat (?d # frames)" for p rd
  proof -
    let ?pl = "command # take (?M - 1) sql"
    let ?p1 = "p\<lparr>reader := Some (rd\<lparr>buffer := concat frames\<rparr>),
        io_trace := io_trace p @ [Recv (take 3 (pack_le 4 ?M) @ [0]), Recv ?pl]\<rparr>"
    have lp: "length ?pl = ?M" using lsql MAX_bounds by simp
    have b: "buffer rd = take 3 (pack_le 4 ?M) @ [0] @ ?pl @ concat frames"
      using h(2) pack_le_small [OF MAX_bounds(1)] by simp
    have "read_packet_loop [] p = read_packet_loop ([] @ ?pl) ?p1"
      using read_frame_step [OF h(1) b lp MAX_bounds(1), of "[]"] by (simp add: Let_def)
    moreover have "fst (read_packet_loop ([] @ ?pl) ?p1) = Inr (([] @ ?pl) @ drop (?M - 1) sql)
        \<and> buffer_len (snd (read_packet_loop ([] @ ?pl) ?p1)) = 0"
      by (rule fr(5) [of ?p1 "rd\<lparr>buffer := concat frames\<rparr>"]) simp_all
    ultimately show ?thesis by simp
  qed
  show ?thesis
    apply (rule exI [of _ "?d # frames"])
    using ex rdp fr(2,3,4) ne k read_packet_of_loop [of _ "command # sql" L] by simp
qed



text \<open>
  The theorem at \<open>k = 1\<close>: \<^verbatim>\<open>COM_QUERY\<close> with a body of 16,777,214 zero bytes gives two
  frames, the second empty, and the reader returns the payload.
\<close>

theorem execute_command_frames_roundtrip_witness:
  "writer (connected []) \<noteq> None
   \<and> length (COM_QUERY # replicate 16777214 0) = 1 * MAX_PACKET_LEN
   \<and> (\<exists>frames.
         execute_command mysql_library COM_QUERY (Bytes (replicate 16777214 0)) (connected [])
           = (Inr (), (connected [])\<lparr>io_trace := io_trace (connected []) @ map Send frames\<rparr>)
       \<and> length frames = 2 \<and> length (last frames) = 4
       \<and> fst (read_packet mysql_library (connected (concat frames)))
           = Inr (COM_QUERY # replicate 16777214 0))"
proof -
  have w: "writer (connected []) \<noteq> None"
    by (simp add: connected_def)
  have i: "\<forall>r. result (connected []) = Some r \<longrightarrow> \<not> unbuffered_active r"
    by (simp add: connected_def new_connection_def)
  have l: "length (COM_QUERY # replicate 16777214 0) = 1 * MAX_PACKET_LEN"
    by (simp add: MAX_PACKET_LEN_def)
  have ce: "check_error mysql_library (COM_QUERY # replicate 16777214 0) = None"
    by (simp add: mysql_library_def COM_QUERY_def)
  from execute_command_frames_roundtrip [OF w i l, of mysql_library]
  obtain frames where fr:
    "execute_command mysql_library COM_QUERY (Bytes (replicate 16777214 0)) (connected [])
       = (Inr (), (connected [])\<lparr>io_trace := io_trace (connected []) @ map Send frames\<rparr>)"
    "length frames = 1 + 1" "length (last frames) = 4"
    "\<And>p rd. reader p = Some rd \<Longrightarrow> buffer rd = concat frames \<Longrightarrow>
       check_error mysql_library (COM_QUERY # replicate 16777214 0) = None \<longrightarrow>
       fst (read_packet mysql_library p) = Inr (COM_QUERY # replicate 16777214 0)"
    by blast
  have "fst (read_packet mysql_library (connected (concat frames)))
      = Inr (COM_QUERY # replicate 16777214 0)"
    using fr(4) [of "connected (concat frames)" "\<lparr>buffer = concat frames, broken = False\<rparr>"] ce
    by (simp add: connected_def)
  with w l fr(1,2,3) show ?thesis
    by (intro conjI exI [of _ frames]) simp_all
qed

text \<open>
  Where the claim as first stated fails: it counts the empty payload in. The nearest the
  writer comes to it is an empty body, as \<^verbatim>\<open>ping\<close> sends: one frame is written, not an empty
  one (it is five bytes long, header and command byte), and the reader returns the command
  byte, not the empty payload.
\<close>

theorem empty_payload_counterexample:
  "io_trace (snd (execute_command mysql_library COM_PING (Bytes []) (connected [])))
     = [Opened, Send [1, 0, 0, 0, 14]]
   \<and> length [1, 0, 0, 0, 14 :: byte] \<noteq> 4
   \<and> fst (read_packet mysql_library (connected [1, 0, 0, 0, 14])) = Inr [14]"
  by (simp add: execute_command_def write_bytes_def connected_def new_connection_def
      MAX_PACKET_LEN_def COM_PING_def pack_le_4 read_packet_def read_packet_loop.simps
      readexactly_def mysql_library_def)

section \<open>What a command does to a pending streaming result\<close>

lemma check_packet_is_eof_Inr:
  assumes "check_packet_is_eof L p r = (Inr b, r1)"
  shows "b = is_eof_packet L p" "unbuffered_active r1 = unbuffered_active r"
    "connection r1 = connection r" "result_fields r1 = result_fields r"
    "affected_rows r1 = affected_rows r" "\<not> b \<Longrightarrow> r1 = r"
  using assms by (auto simp: check_packet_is_eof_def split: if_splits sum.splits)

lemma check_packet_is_eof_Inl:
  assumes "check_packet_is_eof L p r = (Inl e, r1)"
  shows "r1 = r"
  using assms by (auto simp: check_packet_is_eof_def split: if_splits sum.splits)

lemma finish_unbuffered_query_reads_only:
  "finish_unbuffered_query L r c = (x, r', c') \<Longrightarrow> reads_only c c'"
proof (induction L r c arbitrary: x r' c' rule: finish_unbuffered_query.induct)
  case (1 L r c)
  note eq = "1.prems" [unfolded finish_unbuffered_query.simps [of L r c]]
  show ?case
  proof (cases "unbuffered_active r")
    case False
    with eq show ?thesis by (simp add: reads_only_refl)
  next
    case act: True
    show ?thesis
    proof (cases "connection r")
      case None
      with eq act show ?thesis by (simp add: reads_only_refl)
    next
      case (Some ref)
      obtain x1 c1 where rp: "read_packet L c = (x1, c1)"
        by (cases "read_packet L c")
      have s1: "reads_only c c1" using rp by (rule read_packet_reads_only)
      show ?thesis
      proof (cases x1)
        case (Inl e)
        with eq act Some rp have "c' = c1" by simp
        with s1 show ?thesis by simp
      next
        case (Inr packet)
        obtain x2 r1 where ck: "check_packet_is_eof L packet r = (x2, r1)"
          by (cases "check_packet_is_eof L packet r")
        show ?thesis
        proof (cases x2)
          case (Inl e)
          with eq act Some rp Inr ck have "c' = c1" by simp
          with s1 show ?thesis by simp
        next
          case b: (Inr b)
          show ?thesis
          proof (cases b)
            case True
            with eq act Some rp Inr ck b have
              "finish_unbuffered_query L (r1\<lparr>unbuffered_active := False, connection := None\<rparr>) c1
                 = (x, r', c')" by simp
            moreover from True have "b = True" by simp
            ultimately have "reads_only c1 c'"
              using "1.IH"(1) [OF act Some rp [symmetric] Inr ck [symmetric] b] by blast
            with s1 show ?thesis by (rule reads_only_trans)
          next
            case False
            with eq act Some rp Inr ck b have
              "finish_unbuffered_query L r1 c1 = (x, r', c')" by simp
            moreover from False have "b = False" by simp
            ultimately have "reads_only c1 c'"
              using "1.IH"(2) [OF act Some rp [symmetric] Inr ck [symmetric] b] by blast
            with s1 show ?thesis by (rule reads_only_trans)
          qed
        qed
      qed
    qed
  qed
qed

lemma finish_unbuffered_query_Inr:
  "finish_unbuffered_query L r c = (Inr u, r', c') \<Longrightarrow>
     \<not> unbuffered_active r' \<and>
     (unbuffered_active r \<longrightarrow>
        connection r' = None \<and> (\<exists>c0 p. read_packet L c0 = (Inr p, c') \<and> is_eof_packet L p))"
proof (induction L r c arbitrary: r' c' rule: finish_unbuffered_query.induct)
  case (1 L r c)
  note eq = "1.prems" [unfolded finish_unbuffered_query.simps [of L r c]]
  show ?case
  proof (cases "unbuffered_active r")
    case False
    with eq show ?thesis by simp
  next
    case act: True
    from eq act obtain ref where Some: "connection r = Some ref"
      by (cases "connection r") simp_all
    obtain x1 c1 where rp: "read_packet L c = (x1, c1)"
      by (cases "read_packet L c")
    from eq act Some rp obtain packet where Inr: "x1 = Inr packet"
      by (cases x1) simp_all
    obtain x2 r1 where ck: "check_packet_is_eof L packet r = (x2, r1)"
      by (cases "check_packet_is_eof L packet r")
    from eq act Some rp Inr ck obtain b where b: "x2 = Inr b"
      by (cases x2) simp_all
    show ?thesis
    proof (cases b)
      case True
      let ?r = "r1\<lparr>unbuffered_active := False, connection := None\<rparr>"
      from True eq act Some rp Inr ck b have
        "finish_unbuffered_query L ?r c1 = (Inr u, r', c')" by simp
      then have "r' = ?r" "c' = c1"
        by (simp_all add: finish_unbuffered_query.simps [of L ?r c1])
      moreover have "is_eof_packet L packet"
        using check_packet_is_eof_Inr(1) [OF ck [unfolded b]] True by simp
      ultimately show ?thesis using rp Inr by auto
    next
      case False
      with eq act Some rp Inr ck b have f: "finish_unbuffered_query L r1 c1 = (Inr u, r', c')"
        by simp
      have "unbuffered_active r1"
        using check_packet_is_eof_Inr(2) [OF ck [unfolded b]] act by simp
      moreover from False have "b = False" by simp
      ultimately show ?thesis
        using "1.IH"(2) [OF act Some rp [symmetric] Inr ck [symmetric] b _ f] by simp
    qed
  qed
qed


lemma execute_command_loop_unfold:
  assumes "writer c \<noteq> None"
  shows "execute_command_loop seq_id sql c =
     (if drop (min MAX_PACKET_LEN (length sql)) sql = [] \<and> min MAX_PACKET_LEN (length sql) < MAX_PACKET_LEN
      then (Inr (), c\<lparr>io_trace := io_trace c @ [Send (take 3 (pack_le 4 (min MAX_PACKET_LEN (length sql))) @ [of_nat (seq_id mod 256)] @ take (min MAX_PACKET_LEN (length sql)) sql)]\<rparr>)
      else execute_command_loop (seq_id + 1) (drop (min MAX_PACKET_LEN (length sql)) sql)
         (c\<lparr>io_trace := io_trace c @ [Send (take 3 (pack_le 4 (min MAX_PACKET_LEN (length sql))) @ [of_nat (seq_id mod 256)] @ take (min MAX_PACKET_LEN (length sql)) sql)]\<rparr>))"
  by (subst execute_command_loop.simps) (simp only: Let_def write_bytes_open [OF assms] prod.case sum.case)

lemma execute_command_loop_sends:
  "writer c \<noteq> None \<Longrightarrow>
   \<exists>fs. fs \<noteq> [] \<and>
     execute_command_loop seq_id sql c = (Inr (), c\<lparr>io_trace := io_trace c @ map Send fs\<rparr>)"
proof (induction seq_id sql c rule: execute_command_loop.induct)
  case (1 seq_id sql c)
  let ?n = "min MAX_PACKET_LEN (length sql)"
  let ?data = "take 3 (pack_le 4 ?n) @ [of_nat (seq_id mod 256)] @ take ?n sql"
  let ?c1 = "c\<lparr>io_trace := io_trace c @ [Send ?data]\<rparr>"
  have wb: "write_bytes ?data c = (Inr (), ?c1)"
    using "1.prems" by (rule write_bytes_open)
  note unf = execute_command_loop_unfold [OF "1.prems", of seq_id sql]
  show ?case
  proof (cases "drop ?n sql = [] \<and> ?n < MAX_PACKET_LEN")
    case True
    have e: "execute_command_loop seq_id sql c = (Inr (), ?c1)"
      unfolding unf by (rule if_P [OF True])
    show ?thesis
    proof (intro exI conjI)
      show "[?data] \<noteq> []" by simp
      show "execute_command_loop seq_id sql c = (Inr (), c\<lparr>io_trace := io_trace c @ map Send [?data]\<rparr>)"
        unfolding e by simp
    qed
  next
    case False
    have w1: "writer ?c1 \<noteq> None" using "1.prems" by simp
    from "1.IH" [OF refl refl refl wb [symmetric] refl refl False w1]
    obtain fs where fs: "execute_command_loop (seq_id + 1) (drop ?n sql) ?c1
        = (Inr (), ?c1\<lparr>io_trace := io_trace ?c1 @ map Send fs\<rparr>)"
      by blast
    have e: "execute_command_loop seq_id sql c
        = execute_command_loop (seq_id + 1) (drop ?n sql) ?c1"
      unfolding unf by (rule if_not_P [OF False])
    show ?thesis
    proof (intro exI conjI)
      show "?data # fs \<noteq> []" by simp
      show "execute_command_loop seq_id sql c = (Inr (), c\<lparr>io_trace := io_trace c @ map Send (?data # fs)\<rparr>)"
        unfolding e fs by simp
    qed
  qed
qed


text \<open>
  The order of the reads and the writes. Let the Connection be open with a streaming result
  \<open>r\<close> still active, let \<^verbatim>\<open>_finish_unbuffered_query\<close> on it end with outcome \<open>x1\<close>, result
  \<open>r1\<close> and Connection \<open>c1\<close>, and let the new command end with outcome \<open>x\<close> and Connection
  \<open>c'\<close>. Then the finishing only read from the transport; whatever the command wrote, it
  wrote after all those reads; if it wrote any frame, the finishing had succeeded, the last
  packet it read had the shape of an EOF marker, and the result's active flag and
  back-reference are cleared. This does not say that the packet was the marker that ends
  the rows of \<open>r\<close>: the finishing stops at the first packet of that shape, whatever it ends.
\<close>

lemma execute_command_drains_before_writing:
  assumes w: "writer c \<noteq> None" and r: "result c = Some r" and act: "unbuffered_active r"
    and fin: "finish_unbuffered_query L r c = (x1, r1, c1)"
    and ex: "execute_command L command sql c = (x, c')"
  shows "reads_only c c1 \<and> result c' = Some r1 \<and>
    (\<exists>fs. io_trace c' = io_trace c1 @ map Send fs
       \<and> (fs \<noteq> [] \<longrightarrow> x1 = Inr () \<and> \<not> unbuffered_active r1 \<and> connection r1 = None
             \<and> (\<exists>c0 p. read_packet L c0 = (Inr p, c1) \<and> is_eof_packet L p))
       \<and> (x = Inr () \<longrightarrow> fs \<noteq> []))"
proof -
  have ro: "reads_only c c1"
    using fin by (rule finish_unbuffered_query_reads_only)
  let ?c1 = "c1\<lparr>result := Some r1\<rparr>"
  have w1: "writer ?c1 \<noteq> None"
    using w reads_only_fields(1) [OF ro] by simp
  have drain: "(case result c of None \<Rightarrow> (Inr (), c)
      | Some r \<Rightarrow> if unbuffered_active r
          then (case finish_unbuffered_query L r c of (x, r1, c1) \<Rightarrow> (x, c1\<lparr>result := Some r1\<rparr>))
          else (Inr (), c)) = (x1, ?c1)"
    using r act fin by simp
  show ?thesis
  proof (cases x1)
    case (Inl e)
    with ex w have "x = Inl e" "c' = ?c1"
      unfolding execute_command_def drain by simp_all
    then have "io_trace c' = io_trace c1 @ map Send []" "result c' = Some r1"
      by simp_all
    with ro \<open>x = Inl e\<close> show ?thesis
      by (intro conjI exI [of _ "[]"]) simp_all
  next
    case (Inr u)
    have drained: "\<not> unbuffered_active r1 \<and> connection r1 = None
        \<and> (\<exists>c0 p. read_packet L c0 = (Inr p, c1) \<and> is_eof_packet L p)"
      using finish_unbuffered_query_Inr [OF fin [unfolded Inr]] act by simp
    let ?enc = "case sql of Str s \<Rightarrow> encode L (encoding ?c1) s | Bytes b \<Rightarrow> Inr b"
    show ?thesis
    proof (cases ?enc)
      case e: (Inl e)
      with ex w Inr have "x = Inl e" "c' = ?c1"
        unfolding execute_command_def drain by simp_all
      then have "io_trace c' = io_trace c1 @ map Send []" "result c' = Some r1"
        by simp_all
      with ro \<open>x = Inl e\<close> show ?thesis
        by (intro conjI exI [of _ "[]"]) simp_all
    next
      case b: (Inr b)
      let ?n = "min MAX_PACKET_LEN (length b + 1)"
      let ?d = "(pack_le 4 ?n @ [command]) @ take (?n - 1) b"
      let ?c2 = "?c1\<lparr>io_trace := io_trace ?c1 @ [Send ?d]\<rparr>"
      have wb: "write_bytes ?d ?c1 = (Inr (), ?c2)"
        using w1 by (rule write_bytes_open)
      have w2: "writer ?c2 \<noteq> None" using w1 by simp
      have wt: "(writer c = None) = False" using w by simp
      have step: "(x, c') = (if ?n < MAX_PACKET_LEN then (Inr (), ?c2)
          else execute_command_loop 1 (drop (?n - 1) b) ?c2)"
        using ex unfolding execute_command_def drain Inr
        by (simp only: wt if_False prod.case sum.case b Let_def wb)
      obtain fs where fs: "fs \<noteq> []" "x = Inr ()" "io_trace c' = io_trace c1 @ map Send fs"
          "result c' = Some r1"
      proof (cases "?n < MAX_PACKET_LEN")
        case True
        from step [unfolded if_P [OF True]] have "x = Inr ()" "c' = ?c2" by simp_all
        then have "io_trace c' = io_trace c1 @ map Send [?d]" "result c' = Some r1"
          by simp_all
        with \<open>x = Inr ()\<close> that [of "[?d]"] show ?thesis by simp
      next
        case False
        from execute_command_loop_sends [OF w2, of 1 "drop (?n - 1) b"]
        obtain gs where gs: "execute_command_loop 1 (drop (?n - 1) b) ?c2
            = (Inr (), ?c2\<lparr>io_trace := io_trace ?c2 @ map Send gs\<rparr>)"
          by blast
        from step [unfolded if_not_P [OF False] gs]
        have "x = Inr ()" "c' = ?c2\<lparr>io_trace := io_trace ?c2 @ map Send gs\<rparr>"
          by simp_all
        then have "io_trace c' = io_trace c1 @ map Send (?d # gs)" "result c' = Some r1"
          by simp_all
        with \<open>x = Inr ()\<close> that [of "?d # gs"] show ?thesis by simp
      qed
      have "io_trace c' = io_trace c1 @ map Send fs
         \<and> (fs \<noteq> [] \<longrightarrow> x1 = Inr () \<and> \<not> unbuffered_active r1 \<and> connection r1 = None
               \<and> (\<exists>c0 p. read_packet L c0 = (Inr p, c1) \<and> is_eof_packet L p))
         \<and> (x = Inr () \<longrightarrow> fs \<noteq> [])"
        using fs drained Inr by simp
      then have "\<exists>fs. io_trace c' = io_trace c1 @ map Send fs
         \<and> (fs \<noteq> [] \<longrightarrow> x1 = Inr () \<and> \<not> unbuffered_active r1 \<and> connection r1 = None
               \<and> (\<exists>c0 p. read_packet L c0 = (Inr p, c1) \<and> is_eof_packet L p))
         \<and> (x = Inr () \<longrightarrow> fs \<noteq> [])"
        by (rule exI)
      with ro fs(4) show ?thesis by simp
    qed
  qed
qed


section \<open>The greeting without an extended block\<close>

lemma greeting_read:
  "read_packet mysql_library (connected (frame 0 greeting_without_extended)) =
     (Inr greeting_without_extended,
      (connected (frame 0 greeting_without_extended))\<lparr>reader := Some \<lparr>buffer = [], broken = False\<rparr>,
         io_trace := [Opened, Recv [23, 0, 0, 0], Recv greeting_without_extended]\<rparr>)"
proof -
  have "check_error mysql_library greeting_without_extended = None"
    by (simp add: mysql_library_def greeting_without_extended_def)
  moreover have "take 3 (pack_le 4 (length greeting_without_extended)) @ [0] = [23, 0, 0, 0]"
    by (simp add: greeting_without_extended_def pack_le_4)
  moreover have "length greeting_without_extended < MAX_PACKET_LEN"
    by (simp add: greeting_without_extended_def MAX_PACKET_LEN_def)
  ultimately show ?thesis
    using read_packet_frame [of "connected (frame 0 greeting_without_extended)"
        "\<lparr>buffer = frame 0 greeting_without_extended, broken = False\<rparr>" 0
        greeting_without_extended "[]" mysql_library]
    by (simp add: connected_def Let_def)
qed

lemma greeting_parts:
  "byte2int (py_slice greeting_without_extended 0 1) = Inr 10"
  "find_from greeting_without_extended 0 (Suc 0) = 7"
  "map unat (py_slice greeting_without_extended 1 7) = str ''5.7.10''"
  "struct_unpack 4 (py_slice greeting_without_extended 8 12) = Inr 42"
  "py_slice greeting_without_extended 12 20 = [1, 2, 3, 4, 5, 6, 7, 8]"
  "struct_unpack 2 (py_slice greeting_without_extended 21 23) = Inr 63487"
  "length greeting_without_extended = 23"
  by (simp_all add: greeting_without_extended_def byte2int_def struct_unpack_def py_slice_def
      py_index_def str_def)

text \<open>
  C4. The claim's greeting is not parsed to the end: with no extended block the local
  \<^verbatim>\<open>salt_len\<close> is never bound, and the last test of \<^verbatim>\<open>_get_server_information\<close> raises
  \<^verbatim>\<open>UnboundLocalError\<close>. The version, the server version and the thread id are assigned
  before that, with the values the claim names.
\<close>

theorem greeting_without_extended_block_raises:
  "fst (get_server_information mysql_library (connected (frame 0 greeting_without_extended)))
     = Inl UnboundLocalError
   \<and> protocol_version (snd (get_server_information mysql_library
        (connected (frame 0 greeting_without_extended)))) = Some 10
   \<and> server_version (snd (get_server_information mysql_library
        (connected (frame 0 greeting_without_extended)))) = Some (str ''5.7.10'')
   \<and> server_thread_id (snd (get_server_information mysql_library
        (connected (frame 0 greeting_without_extended)))) = Some 42"
  unfolding get_server_information_def greeting_read
  by (simp add: greeting_parts Let_def server_information_extended_def)



section \<open>Starting a streaming result\<close>

lemma small_packets:
  "length [1 :: byte] < MAX_PACKET_LEN" "length select_1_descriptor < MAX_PACKET_LEN"
  "length eof_marker < MAX_PACKET_LEN" "length [1, 49 :: byte] < MAX_PACKET_LEN"
  by (simp_all add: MAX_PACKET_LEN_def select_1_descriptor_def eof_marker_def)

lemma packet_kinds:
  "check_error mysql_library [1] = None" "\<not> is_ok_packet mysql_library [1]"
  "read_length_encoded_integer mysql_library [1] = Inr (Some 1)"
  "check_error mysql_library select_1_descriptor = None"
  "\<not> is_eof_packet mysql_library select_1_descriptor"
  "check_error mysql_library eof_marker = None"
  "is_eof_packet mysql_library eof_marker"
  "check_error mysql_library [1, 49] = None"
  "\<not> is_eof_packet mysql_library [1, 49]"
  by (simp_all add: mysql_library_def select_1_descriptor_def eof_marker_def
      length_encoded_integer_def)

text \<open>
  C8. On the answer to \<^verbatim>\<open>SELECT 1\<close>, \<^verbatim>\<open>init_unbuffered_query\<close> returns with the
  affected-row count 18446744073709551615, as the claim says, but it has read the column
  count only: the field descriptor and its EOF marker are still in the stream and the
  result has no field list. The first pull then reads the descriptor as if it were a row
  and raises \<^verbatim>\<open>AttributeError\<close>.
\<close>

theorem streaming_init_skips_descriptors:
  "init_unbuffered_query mysql_library MySQLResult_init (connected select_1_response) =
     (Inr (),
      MySQLResult_init\<lparr>unbuffered_active := True, field_count := Some 1,
        affected_rows := Some 18446744073709551615\<rparr>,
      (connected select_1_response)
        \<lparr>reader := Some \<lparr>buffer = frame 2 select_1_descriptor @ frame 3 eof_marker @ select_1_rows,
                            broken = False\<rparr>,
         io_trace := [Opened, Recv [1, 0, 0, 1], Recv [1]]\<rparr>)
   \<and> result_fields (MySQLResult_init\<lparr>unbuffered_active := True, field_count := Some 1,
        affected_rows := Some 18446744073709551615\<rparr>) = None
   \<and> fst (read_rowdata_packet_unbuffered mysql_library
        (MySQLResult_init\<lparr>unbuffered_active := True, field_count := Some 1,
           affected_rows := Some 18446744073709551615\<rparr>)
        ((connected select_1_response)
          \<lparr>reader := Some \<lparr>buffer = frame 2 select_1_descriptor @ frame 3 eof_marker @ select_1_rows,
                              broken = False\<rparr>,
           io_trace := [Opened, Recv [1, 0, 0, 1], Recv [1]]\<rparr>)) = Inl AttributeError"
proof -
  let ?rest = "frame 2 select_1_descriptor @ frame 3 eof_marker @ select_1_rows"
  let ?c = "connected select_1_response"
  let ?c1 = "?c\<lparr>reader := Some \<lparr>buffer = ?rest, broken = False\<rparr>,
       io_trace := [Opened, Recv [1, 0, 0, 1], Recv [1]]\<rparr>"
  let ?r1 = "MySQLResult_init\<lparr>unbuffered_active := True, field_count := Some 1,
        affected_rows := Some 18446744073709551615\<rparr>"
  have h: "take 3 (pack_le 4 (length [1 :: byte])) @ [of_nat 1] = [1, 0, 0, 1 :: byte]"
    by (simp add: pack_le_4)
  have rp: "read_packet mysql_library ?c = (Inr [1], ?c1)"
    using read_packet_frame [of ?c "\<lparr>buffer = select_1_response, broken = False\<rparr>" 1 "[1]" ?rest
        mysql_library] small_packets(1) packet_kinds(1) h
    by (simp add: connected_def select_1_response_def Let_def)
  have a: "init_unbuffered_query mysql_library MySQLResult_init ?c = (Inr (), ?r1, ?c1)"
    unfolding init_unbuffered_query_def
    by (simp add: rp packet_kinds Let_def MySQLResult_init_def)
  have b: "result_fields ?r1 = None"
    by (simp add: MySQLResult_init_def)
  let ?c2 = "?c1\<lparr>reader := Some \<lparr>buffer = frame 3 eof_marker @ select_1_rows, broken = False\<rparr>,
       io_trace := io_trace ?c1 @ [Recv (take 3 (pack_le 4 (length select_1_descriptor)) @ [of_nat 2]),
         Recv select_1_descriptor]\<rparr>"
  have rp2: "read_packet mysql_library ?c1 = (Inr select_1_descriptor, ?c2)"
    using read_packet_frame [of ?c1 "\<lparr>buffer = ?rest, broken = False\<rparr>" 2 select_1_descriptor
        "frame 3 eof_marker @ select_1_rows" mysql_library] small_packets(2) packet_kinds(4)
    by (simp add: Let_def)
  have c: "fst (read_rowdata_packet_unbuffered mysql_library ?r1 ?c1) = Inl AttributeError"
    unfolding read_rowdata_packet_unbuffered_def
    by (simp add: rp2 packet_kinds check_packet_is_eof_def read_row_from_packet_def
        MySQLResult_init_def)
  from a b c show ?thesis by simp
qed


section \<open>A command after a streaming query\<close>

lemma select_1_query_sent:
  "execute_command mysql_library COM_QUERY (Str (str ''SELECT 1'')) (connected select_1_response)
     = (Inr (), (connected select_1_response)
          \<lparr>io_trace := [Opened, Send [9, 0, 0, 0, 3, 83, 69, 76, 69, 67, 84, 32, 49]]\<rparr>)"
  by (simp add: execute_command_def connected_def new_connection_def mysql_library_def
      codec_encode_def str_def write_bytes_def MAX_PACKET_LEN_def COM_QUERY_def pack_le_4)

lemma streaming_select_1:
  "query mysql_library (Str (str ''SELECT 1'')) True (connected select_1_response) =
     (Inr (Some 18446744073709551615),
      (connected select_1_response)
        \<lparr>reader := Some \<lparr>buffer = frame 2 select_1_descriptor @ frame 3 eof_marker @ select_1_rows,
                            broken = False\<rparr>,
         io_trace := [Opened, Send [9, 0, 0, 0, 3, 83, 69, 76, 69, 67, 84, 32, 49],
                      Recv [1, 0, 0, 1], Recv [1]],
         result := Some (MySQLResult_init\<lparr>unbuffered_active := True, field_count := Some 1,
                           affected_rows := Some 18446744073709551615\<rparr>),
         conn_affected_rows := Some 18446744073709551615\<rparr>)"
proof -
  let ?rest = "frame 2 select_1_descriptor @ frame 3 eof_marker @ select_1_rows"
  let ?c1 = "(connected select_1_response)
          \<lparr>io_trace := [Opened, Send [9, 0, 0, 0, 3, 83, 69, 76, 69, 67, 84, 32, 49]]\<rparr>"
  let ?c2 = "?c1\<lparr>reader := Some \<lparr>buffer = ?rest, broken = False\<rparr>,
       io_trace := [Opened, Send [9, 0, 0, 0, 3, 83, 69, 76, 69, 67, 84, 32, 49],
                    Recv [1, 0, 0, 1], Recv [1]]\<rparr>"
  let ?r1 = "MySQLResult_init\<lparr>unbuffered_active := True, field_count := Some 1,
        affected_rows := Some 18446744073709551615\<rparr>"
  have h: "take 3 (pack_le 4 (length [1 :: byte])) @ [of_nat 1] = [1, 0, 0, 1 :: byte]"
    by (simp add: pack_le_4)
  have rp: "read_packet mysql_library ?c1 = (Inr [1], ?c2)"
    using read_packet_frame [of ?c1 "\<lparr>buffer = select_1_response, broken = False\<rparr>" 1 "[1]" ?rest
        mysql_library] small_packets(1) packet_kinds(1) h
    by (simp add: connected_def select_1_response_def Let_def)
  have a: "init_unbuffered_query mysql_library MySQLResult_init ?c1 = (Inr (), ?r1, ?c2)"
    unfolding init_unbuffered_query_def
    by (simp add: rp packet_kinds Let_def MySQLResult_init_def)
  let ?c3 = "?c2\<lparr>result := Some ?r1, conn_affected_rows := affected_rows ?r1,
       conn_server_status := (case server_status ?r1 of None \<Rightarrow> conn_server_status ?c2
                              | Some st \<Rightarrow> Some st)\<rparr>"
  have ss: "server_status MySQLResult_init = None"
    by (simp add: MySQLResult_init_def)
  have q: "query mysql_library (Str (str ''SELECT 1'')) True (connected select_1_response)
      = (Inr (conn_affected_rows ?c3), ?c3)"
    unfolding query_def select_1_query_sent read_query_result_def
    by (simp add: a ss)
  show ?thesis
    unfolding q by (simp add: MySQLResult_init_def connected_def new_connection_def)
qed

lemma ping_after_streaming_select_1:
  "execute_command mysql_library COM_PING (Str []) after_streaming_query =
     (Inr (),
      after_streaming_query
        \<lparr>reader := Some \<lparr>buffer = select_1_rows, broken = False\<rparr>,
         io_trace := [Opened, Send [9, 0, 0, 0, 3, 83, 69, 76, 69, 67, 84, 32, 49],
                      Recv [1, 0, 0, 1], Recv [1],
                      Recv [23, 0, 0, 2], Recv select_1_descriptor,
                      Recv [5, 0, 0, 3], Recv eof_marker,
                      Send [1, 0, 0, 0, 14]],
         result := Some (MySQLResult_init\<lparr>field_count := Some 1,
                           affected_rows := Some 18446744073709551615,
                           warning_count := 0, has_next := Some False,
                           unbuffered_active := False, connection := None\<rparr>)\<rparr>)"
proof -
  let ?q = "[Opened, Send [9, 0, 0, 0, 3, 83, 69, 76, 69, 67, 84, 32, 49],
            Recv [1, 0, 0, 1], Recv [1 :: byte]]"
  let ?r1 = "MySQLResult_init\<lparr>unbuffered_active := True, field_count := Some (Suc 0),
        affected_rows := Some 18446744073709551615\<rparr>"
  let ?c = after_streaming_query
  have c: "?c = (connected select_1_response)
        \<lparr>reader := Some \<lparr>buffer = frame 2 select_1_descriptor @ frame 3 eof_marker @ select_1_rows,
                            broken = False\<rparr>,
         io_trace := ?q, result := Some ?r1,
         conn_affected_rows := Some 18446744073709551615\<rparr>"
    unfolding after_streaming_query_def streaming_select_1 by simp
  have w: "writer ?c \<noteq> None" "result ?c = Some ?r1" "encoding ?c = str ''latin1''"
    "reader ?c = Some \<lparr>buffer = frame 2 select_1_descriptor @ frame 3 eof_marker @ select_1_rows,
                            broken = False\<rparr>" "io_trace ?c = ?q"
    "writer ?c = Some StreamWriter"
    unfolding c by (simp_all add: connected_def new_connection_def)
  let ?c1 = "?c\<lparr>reader := Some \<lparr>buffer = frame 3 eof_marker @ select_1_rows, broken = False\<rparr>,
       io_trace := [Opened, Send [9, 0, 0, 0, 3, 83, 69, 76, 69, 67, 84, 32, 49],
                    Recv [1, 0, 0, 1], Recv [1],
                    Recv [23, 0, 0, 2], Recv select_1_descriptor]\<rparr>"
  let ?c2 = "?c\<lparr>reader := Some \<lparr>buffer = select_1_rows, broken = False\<rparr>,
       io_trace := [Opened, Send [9, 0, 0, 0, 3, 83, 69, 76, 69, 67, 84, 32, 49],
                    Recv [1, 0, 0, 1], Recv [1],
                    Recv [23, 0, 0, 2], Recv select_1_descriptor,
                    Recv [5, 0, 0, 3], Recv eof_marker]\<rparr>"
  have h1: "take 3 (pack_le 4 (length select_1_descriptor)) @ [of_nat 2] = [23, 0, 0, 2 :: byte]"
    by (simp add: pack_le_4 select_1_descriptor_def)
  have h2: "take 3 (pack_le 4 (length eof_marker)) @ [of_nat 3] = [5, 0, 0, 3 :: byte]"
    by (simp add: pack_le_4 eof_marker_def)
  have rp1: "read_packet mysql_library ?c = (Inr select_1_descriptor, ?c1)"
    using read_packet_frame [of ?c _ 2 select_1_descriptor "frame 3 eof_marker @ select_1_rows"
        mysql_library, OF w(4)] small_packets(2) packet_kinds(4) h1 w(5)
    by (simp add: Let_def)
  have rp2: "read_packet mysql_library ?c1 = (Inr eof_marker, ?c2)"
    using read_packet_frame [of ?c1 "\<lparr>buffer = frame 3 eof_marker @ select_1_rows, broken = False\<rparr>"
        3 eof_marker select_1_rows mysql_library] small_packets(3) packet_kinds(6) h2
    by (simp add: Let_def)
  have ck1: "check_packet_is_eof mysql_library select_1_descriptor r = (Inr False, r)" for r
    by (simp add: check_packet_is_eof_def packet_kinds)
  let ?r2 = "?r1\<lparr>warning_count := 0, has_next := Some False\<rparr>"
  have eof: "EOFPacketWrapper mysql_library eof_marker
      = Inr \<lparr> eof_warning_count = 0, eof_has_next = False \<rparr>"
    by (simp add: mysql_library_def parse_eof_packet_def eof_marker_def struct_unpack_def)
  have ck2: "check_packet_is_eof mysql_library eof_marker r
      = (Inr True, r\<lparr>warning_count := 0, has_next := Some False\<rparr>)" for r
    by (simp add: check_packet_is_eof_def packet_kinds eof)
  let ?r3 = "?r2\<lparr>unbuffered_active := False, connection := None\<rparr>"
  have ci: "connection MySQLResult_init = Some ConnRef"
    by (simp add: MySQLResult_init_def)
  have f3: "finish_unbuffered_query mysql_library (r\<lparr>unbuffered_active := False, connection := None\<rparr>) c
      = (Inr (), r\<lparr>unbuffered_active := False, connection := None\<rparr>, c)" for r c
    by (subst finish_unbuffered_query.simps) simp
  have f2: "finish_unbuffered_query mysql_library ?r1 ?c1 = (Inr (), ?r3, ?c2)"
    by (subst finish_unbuffered_query.simps) (simp add: rp2 ck2 f3 ci)
  have f1: "finish_unbuffered_query mysql_library ?r1 ?c = (Inr (), ?r3, ?c2)"
    by (subst finish_unbuffered_query.simps) (simp add: rp1 ck1 f2 ci)
  have enc: "encode mysql_library (str ''latin1'') [] = Inr []"
    by (simp add: mysql_library_def codec_encode_def str_def)
  show ?thesis
    unfolding execute_command_def
    by (simp add: w f1 enc write_bytes_def MAX_PACKET_LEN_def COM_PING_def pack_le_4)
qed

text \<open>
  C3. A command issued while a streaming result is active does not read to the EOF marker
  that ends the result's rows. After \<^verbatim>\<open>query("SELECT 1", unbuffered=True)\<close> the result is
  active and the stream still holds the field descriptor, the descriptors' EOF marker, the
  row and the closing EOF marker. \<^verbatim>\<open>_execute_command(COM_PING, "")\<close> then reads the
  descriptor and the descriptors' EOF marker, takes that marker for the end of the result,
  clears the active flag and the back-reference, and writes the ping: the row and the
  closing EOF marker of the result are still unread in the stream when the command is
  written.
\<close>

theorem command_after_streaming_query_leaves_rows_unread:
  "query mysql_library (Str (str ''SELECT 1'')) True (connected select_1_response)
     = (Inr (Some 18446744073709551615), after_streaming_query)
   \<and> map_option unbuffered_active (result after_streaming_query) = Some True
   \<and> map_option buffer (reader after_streaming_query)
       = Some (frame 2 select_1_descriptor @ frame 3 eof_marker @ select_1_rows)
   \<and> execute_command mysql_library COM_PING (Str []) after_streaming_query =
       (Inr (),
        after_streaming_query
          \<lparr>reader := Some \<lparr>buffer = select_1_rows, broken = False\<rparr>,
           io_trace := [Opened, Send [9, 0, 0, 0, 3, 83, 69, 76, 69, 67, 84, 32, 49],
                        Recv [1, 0, 0, 1], Recv [1],
                        Recv [23, 0, 0, 2], Recv select_1_descriptor,
                        Recv [5, 0, 0, 3], Recv eof_marker,
                        Send [1, 0, 0, 0, 14]],
           result := Some (MySQLResult_init\<lparr>field_count := Some 1,
                             affected_rows := Some 18446744073709551615,
                             warning_count := 0, has_next := Some False,
                             unbuffered_active := False, connection := None\<rparr>)\<rparr>)
   \<and> select_1_rows = [2, 0, 0, 4, 1, 49, 5, 0, 0, 5, 254, 0, 0, 2, 0]"
proof -
  have q: "query mysql_library (Str (str ''SELECT 1'')) True (connected select_1_response)
      = (Inr (Some 18446744073709551615), after_streaming_query)"
    unfolding after_streaming_query_def streaming_select_1 by simp
  have a: "map_option unbuffered_active (result after_streaming_query) = Some True"
    unfolding after_streaming_query_def streaming_select_1 by simp
  have b: "map_option buffer (reader after_streaming_query)
      = Some (frame 2 select_1_descriptor @ frame 3 eof_marker @ select_1_rows)"
    unfolding after_streaming_query_def streaming_select_1 by simp
  have r: "select_1_rows = [2, 0, 0, 4, 1, 49, 5, 0, 0, 5, 254, 0, 0, 2, 0]"
    by (simp add: select_1_rows_def frame_def eof_marker_def pack_le_4)
  from q a b r show ?thesis
    by (simp only: ping_after_streaming_select_1 simp_thms)
qed


section \<open>Pulling from a result that is not active\<close>

text \<open>
  C10. A single-row pull on a result whose \<^verbatim>\<open>unbuffered_active\<close> flag is false returns no
  row and leaves the result and the Connection as they were, the reader and the record of
  reads included: nothing was read.
\<close>

theorem inactive_pull_changes_nothing:
  "\<not> unbuffered_active r \<Longrightarrow> read_rowdata_packet_unbuffered L r c = (Inr None, r, c)"
  by (simp add: read_rowdata_packet_unbuffered_def)

theorem inactive_pull_changes_nothing_witness:
  "\<not> unbuffered_active MySQLResult_init
   \<and> read_rowdata_packet_unbuffered mysql_library MySQLResult_init (connected select_1_rows)
       = (Inr None, MySQLResult_init, connected select_1_rows)"
proof -
  have h: "\<not> unbuffered_active MySQLResult_init"
    by (simp add: MySQLResult_init_def)
  from h inactive_pull_changes_nothing [OF h] show ?thesis
    by simp
qed

section \<open>Closing\<close>

text \<open>
  C9, amended. \<^verbatim>\<open>close\<close> on a Connection whose writer is already null is not ignored: it
  raises \<^verbatim>\<open>AttributeError\<close>, leaves the Connection as it was and closes nothing. On an open
  Connection it closes the transport once and nulls the writer, so that a second \<^verbatim>\<open>close\<close>
  raises in the same way and the transport is not closed again.
\<close>

theorem close_twice:
  "(writer c = None \<longrightarrow> close c = (Inl AttributeError, c))
   \<and> (writer c \<noteq> None \<longrightarrow>
        close c = (Inr (), c\<lparr>io_trace := io_trace c @ [Closed], writer := None\<rparr>)
      \<and> close (snd (close c)) = (Inl AttributeError, snd (close c)))"
  by (auto simp: close_def split: option.splits)

theorem close_twice_witness:
  "writer (connected []) \<noteq> None
   \<and> close (connected [])
       = (Inr (), (connected [])\<lparr>io_trace := [Opened, Closed], writer := None\<rparr>)
   \<and> writer new_connection = None
   \<and> close new_connection = (Inl AttributeError, new_connection)"
proof -
  have a: "writer (connected []) \<noteq> None" by (simp add: connected_def)
  have b: "writer new_connection = None" by (simp add: new_connection_def)
  have t: "io_trace (connected []) = [Opened]" by (simp add: connected_def)
  from close_twice [of "connected []"] close_twice [of new_connection] a b t show ?thesis
    by simp
qed

text \<open>
  Where the claim as first stated fails: closing a Connection that was never connected, or
  one that was closed already, raises.
\<close>

theorem close_when_disconnected_counterexample:
  "fst (close new_connection) = Inl AttributeError
   \<and> fst (close (snd (close (connected [])))) = Inl AttributeError"
  by (simp add: close_def new_connection_def connected_def)


section \<open>The decoding of a column value\<close>

text \<open>
  C5, amended. \<open>read_row_value\<close> is what \<^verbatim>\<open>_read_row_from_packet\<close> does with each column
  value, called with the Connection's \<^verbatim>\<open>use_unicode\<close>. A SQL NULL is \<^verbatim>\<open>None\<close> and reaches no
  converter. A value that is not NULL is decoded only when \<^verbatim>\<open>use_unicode\<close> is set: with the
  encoding of the field's character set when the type is textual and that character set is
  not binary, not at all when it is binary, and as UTF-8 (the default of \<^verbatim>\<open>bytes.decode\<close>,
  whatever the Connection's encoding) when the type is any other. Without \<^verbatim>\<open>use_unicode\<close>
  the raw bytes stay. In every case the value then goes through the converter of its type
  code, when there is one.
\<close>

theorem read_row_value_rule:
  "read_row_value L c (use_unicode c) fd None = Inr PyNone
   \<and> (use_unicode c \<and> type_code fd \<in> set (TEXT_TYPES L)
        \<and> charset_by_id L (charsetnr fd) = Some cs \<and> \<not> is_binary cs \<longrightarrow>
      read_row_value L c (use_unicode c) fd (Some raw) =
        (case decode L (charset_encoding cs) raw of
           Inl e \<Rightarrow> Inl e
         | Inr s \<Rightarrow> (case decoders c (type_code fd) of
                       None \<Rightarrow> Inr (PyStr s)
                     | Some converter \<Rightarrow> converter (PyStr s))))
   \<and> (use_unicode c \<and> type_code fd \<in> set (TEXT_TYPES L)
        \<and> charset_by_id L (charsetnr fd) = Some cs \<and> is_binary cs \<longrightarrow>
      read_row_value L c (use_unicode c) fd (Some raw) =
        (case decoders c (type_code fd) of
           None \<Rightarrow> Inr (PyBytes raw)
         | Some converter \<Rightarrow> converter (PyBytes raw)))
   \<and> (use_unicode c \<and> type_code fd \<notin> set (TEXT_TYPES L) \<longrightarrow>
      read_row_value L c (use_unicode c) fd (Some raw) =
        (case decode L (str ''utf-8'') raw of
           Inl e \<Rightarrow> Inl e
         | Inr s \<Rightarrow> (case decoders c (type_code fd) of
                       None \<Rightarrow> Inr (PyStr s)
                     | Some converter \<Rightarrow> converter (PyStr s))))
   \<and> (\<not> use_unicode c \<longrightarrow>
      read_row_value L c (use_unicode c) fd (Some raw) =
        (case decoders c (type_code fd) of
           None \<Rightarrow> Inr (PyBytes raw)
         | Some converter \<Rightarrow> converter (PyBytes raw)))"
  by (auto simp: read_row_value_def Let_def split: sum.splits option.splits)

text \<open>
  The theorem on a UTF-8 text column holding \<^verbatim>\<open>c3 a9\<close>, on an enumeration column holding
  \<^verbatim>\<open>a\<close>, and on the latter without \<^verbatim>\<open>use_unicode\<close>.
\<close>

theorem read_row_value_rule_witness:
  "use_unicode new_connection
   \<and> type_code varchar_field \<in> set (TEXT_TYPES mysql_library)
   \<and> charset_by_id mysql_library (charsetnr varchar_field) = Some utf8_charset
   \<and> \<not> is_binary utf8_charset
   \<and> read_row_value mysql_library new_connection (use_unicode new_connection) varchar_field
        (Some [195, 169]) = Inr (PyStr [233])
   \<and> type_code enum_field \<notin> set (TEXT_TYPES mysql_library)
   \<and> read_row_value mysql_library new_connection (use_unicode new_connection) enum_field
        (Some [97]) = Inr (PyStr [97])
   \<and> \<not> use_unicode (new_connection\<lparr>use_unicode := False\<rparr>)
   \<and> read_row_value mysql_library (new_connection\<lparr>use_unicode := False\<rparr>)
        (use_unicode (new_connection\<lparr>use_unicode := False\<rparr>)) enum_field (Some [97])
        = Inr (PyBytes [97])"
  using read_row_value_rule [of mysql_library new_connection varchar_field utf8_charset "[195, 169]"]
    read_row_value_rule [of mysql_library new_connection enum_field utf8_charset "[97]"]
    read_row_value_rule [of mysql_library "new_connection\<lparr>use_unicode := False\<rparr>" enum_field
      utf8_charset "[97]"]
  by (simp add: new_connection_def varchar_field_def enum_field_def mysql_library_def
      utf8_charset_def codec_decode_def str_def)

text \<open>
  Where the claim as first stated fails. Without \<^verbatim>\<open>use_unicode\<close> a text column is not
  decoded, though its character set's encoding would decode it. And a column of another
  type is decoded as UTF-8, not with the Connection's encoding: on a Latin-1 Connection the
  byte \<^verbatim>\<open>e9\<close> of an enumeration column raises, though the Connection's encoding decodes it.
\<close>

theorem row_decoding_counterexample:
  "read_row_value mysql_library (new_connection\<lparr>use_unicode := False\<rparr>) False varchar_field
     (Some [195, 169]) = Inr (PyBytes [195, 169])
   \<and> decode mysql_library (str ''utf8'') [195, 169] = Inr [233]
   \<and> read_row_value mysql_library new_connection True enum_field (Some [233]) = Inl UnicodeError
   \<and> decode mysql_library (encoding new_connection) [233] = Inr [233]"
  by (simp add: read_row_value_def new_connection_def varchar_field_def enum_field_def
      mysql_library_def codec_decode_def str_def)



section \<open>Streaming and buffered reading of the same rows\<close>

lemma read_row_from_packet_cong:
  assumes "result_fields r = result_fields r'" and "connection r = connection r'"
  shows "read_row_from_packet L r c p = read_row_from_packet L r' c p"
  unfolding read_row_from_packet_def assms by (rule refl)

lemma fetch_all_vs_loop:
  assumes "unbuffered_active rs" and "result_fields rs = result_fields rb"
    and "connection rs = connection rb"
    and "read_rowdata_packet_loop L acc rb c = (x, rb', cb)"
    and "fetch_all_unbuffered L rs c = (y, rs', cs)"
  shows "cs = cb \<and>
    (case y of
       Inl e \<Rightarrow> x = Inl e
     | Inr rws \<Rightarrow> x = Inr (acc @ rws)
         \<and> affected_rows rs' = (if rws = [] then affected_rows rs else Some 1)
         \<and> \<not> unbuffered_active rs' \<and> connection rs' = None \<and> connection rb' = None
         \<and> warning_count rs' = warning_count rb' \<and> has_next rs' = has_next rb')"
  using assms
proof (induction L acc rb c arbitrary: rs x rb' cb y rs' cs rule: read_rowdata_packet_loop.induct)
  case (1 L acc rb c)
  note act = "1.prems"(1) and fl = "1.prems"(2) and cn = "1.prems"(3)
  note lp = "1.prems"(4) [unfolded read_rowdata_packet_loop.simps [of L acc rb c]]
  note ft = "1.prems"(5) [unfolded fetch_all_unbuffered.simps [of L rs c]
      read_rowdata_packet_unbuffered_def]
  show ?case
  proof (cases "connection rb")
    case None
    from lp None have "x = Inl AttributeError" "cb = c" by simp_all
    moreover from ft act cn None have "y = Inl AttributeError" "cs = c" by simp_all
    ultimately show ?thesis by simp
  next
    case (Some ref)
    obtain x1 c1 where rp: "read_packet L c = (x1, c1)"
      by (cases "read_packet L c")
    show ?thesis
    proof (cases x1)
      case (Inl e)
      from lp Some rp Inl have "x = Inl e" "cb = c1" by simp_all
      moreover from ft act cn Some rp Inl have "y = Inl e" "cs = c1" by simp_all
      ultimately show ?thesis by simp
    next
      case (Inr packet)
      show ?thesis
      proof (cases "is_eof_packet L packet")
        case True
        show ?thesis
        proof (cases "EOFPacketWrapper L packet")
          case (Inl e)
          from lp Some rp Inr True Inl have "x = Inl e" "cb = c1"
            by (simp_all add: check_packet_is_eof_def)
          moreover from ft act cn Some rp Inr True Inl have "y = Inl e" "cs = c1"
            by (simp_all add: check_packet_is_eof_def)
          ultimately show ?thesis by simp
        next
          case eof: (Inr eof)
          from lp Some rp Inr True eof have "x = Inr acc" "cb = c1"
            "rb' = rb\<lparr>warning_count := eof_warning_count eof,
                has_next := Some (eof_has_next eof), connection := None\<rparr>"
            by (simp_all add: check_packet_is_eof_def)
          moreover from ft act cn Some rp Inr True eof have "y = Inr []" "cs = c1"
            "rs' = rs\<lparr>warning_count := eof_warning_count eof,
                has_next := Some (eof_has_next eof), unbuffered_active := False,
                connection := None, rows := None\<rparr>"
            by (simp_all add: check_packet_is_eof_def)
          ultimately show ?thesis by simp
        qed
      next
        case False
        have ckb: "check_packet_is_eof L packet rb = (Inr False, rb)"
          using False by (simp add: check_packet_is_eof_def)
        have cks: "check_packet_is_eof L packet rs = (Inr False, rs)"
          using False by (simp add: check_packet_is_eof_def)
        have rr: "read_row_from_packet L rs c1 packet = read_row_from_packet L rb c1 packet"
          using fl cn by (rule read_row_from_packet_cong)
        show ?thesis
        proof (cases "read_row_from_packet L rb c1 packet")
          case (Inl e)
          from lp Some rp Inr ckb Inl have "x = Inl e" "cb = c1" by simp_all
          moreover from ft act cn Some rp Inr cks rr Inl have "y = Inl e" "cs = c1"
            by simp_all
          ultimately show ?thesis by simp
        next
          case rw: (Inr rw)
          let ?rs = "rs\<lparr>affected_rows := Some 1, rows := Some [rw]\<rparr>"
          obtain y2 rs2 cs2 where f2: "fetch_all_unbuffered L ?rs c1 = (y2, rs2, cs2)"
            by (cases "fetch_all_unbuffered L ?rs c1")
          from lp Some rp Inr ckb rw
          have l2: "read_rowdata_packet_loop L (acc @ [rw]) rb c1 = (x, rb', cb)"
            by simp
          have ih: "cs2 = cb \<and>
            (case y2 of
               Inl e \<Rightarrow> x = Inl e
             | Inr rws \<Rightarrow> x = Inr ((acc @ [rw]) @ rws)
                 \<and> affected_rows rs2 = (if rws = [] then affected_rows ?rs else Some 1)
                 \<and> \<not> unbuffered_active rs2 \<and> connection rs2 = None \<and> connection rb' = None
                 \<and> warning_count rs2 = warning_count rb' \<and> has_next rs2 = has_next rb')"
            by (rule "1.IH" [OF Some rp [symmetric] Inr ckb [symmetric] refl _ rw _ _ _ l2 f2])
               (use act fl cn in simp_all)
          show ?thesis
          proof (cases y2)
            case (Inl e)
            from ft f2 act cn Some rp Inr cks rr rw Inl have "y = Inl e" "cs = cs2"
              by auto
            with ih Inl show ?thesis by simp
          next
            case rws: (Inr rws)
            from ft f2 act cn Some rp Inr cks rr rw rws
            have "y = Inr (rw # rws)" "cs = cs2" "rs' = rs2"
              by auto
            with ih rws show ?thesis by simp
          qed
        qed
      qed
    qed
  qed
qed


text \<open>
  C1, amended. Let a buffered and a streaming result hold the same field list and
  back-reference, on the same Connection with the same packets to come, the streaming one
  active. Then \<^verbatim>\<open>_read_rowdata_packet\<close> and the repeated pulls of
  \<^verbatim>\<open>_read_rowdata_packet_unbuffered\<close> end alike: they leave the Connection in the same
  state, one raises exactly when the other does and the same error, and when they return
  the rows pulled are the rows of the buffered result, in order. The buffered result then
  counts as many affected rows as there are rows. The streaming result does not: each pull
  sets its count to 1, so it ends at 1 when there was a row, and where it started when
  there was none. Both results end with the back-reference cleared, the streaming one
  inactive.
\<close>

theorem streaming_and_buffered_rows:
  assumes "unbuffered_active rs" and "result_fields rs = result_fields rb"
    and "connection rs = connection rb"
    and "read_rowdata_packet L rb c = (x, rb', cb)"
    and "fetch_all_unbuffered L rs c = (y, rs', cs)"
  shows "cs = cb \<and>
    (case y of
       Inl e \<Rightarrow> x = Inl e
     | Inr rws \<Rightarrow> x = Inr () \<and> rows rb' = Some rws \<and> affected_rows rb' = Some (length rws)
         \<and> affected_rows rs' = (if rws = [] then affected_rows rs else Some 1)
         \<and> \<not> unbuffered_active rs' \<and> connection rs' = None \<and> connection rb' = None)"
proof -
  obtain x0 rb0 cb0 where lp: "read_rowdata_packet_loop L [] rb c = (x0, rb0, cb0)"
    by (cases "read_rowdata_packet_loop L [] rb c")
  note fl = fetch_all_vs_loop [OF assms(1,2,3) lp assms(5)]
  show ?thesis
  proof (cases y)
    case (Inl e)
    with fl have "x0 = Inl e" "cs = cb0" by simp_all
    with assms(4) lp Inl show ?thesis
      by (simp add: read_rowdata_packet_def)
  next
    case (Inr rws)
    with fl have "x0 = Inr rws" "cs = cb0" "connection rb0 = None"
      "affected_rows rs' = (if rws = [] then affected_rows rs else Some 1)"
      "\<not> unbuffered_active rs'" "connection rs' = None"
      by simp_all
    with assms(4) lp Inr show ?thesis
      by (auto simp: read_rowdata_packet_def)
  qed
qed

text \<open>The theorem on the one row of \<^verbatim>\<open>SELECT 1\<close>, where both counts are 1.\<close>

theorem streaming_and_buffered_rows_witness:
  "unbuffered_active described_streaming_result
   \<and> result_fields described_streaming_result = result_fields buffered_result
   \<and> connection described_streaming_result = connection buffered_result
   \<and> fst (fetch_all_unbuffered mysql_library described_streaming_result
        (connected select_1_rows)) = Inr [[PyStr [49]]]
   \<and> fst (read_rowdata_packet mysql_library buffered_result (connected select_1_rows)) = Inr ()
   \<and> rows (fst (snd (read_rowdata_packet mysql_library buffered_result
        (connected select_1_rows)))) = Some [[PyStr [49]]]
   \<and> affected_rows (fst (snd (read_rowdata_packet mysql_library buffered_result
        (connected select_1_rows)))) = Some 1
   \<and> affected_rows (fst (snd (fetch_all_unbuffered mysql_library described_streaming_result
        (connected select_1_rows)))) = Some 1
   \<and> snd (snd (fetch_all_unbuffered mysql_library described_streaming_result
        (connected select_1_rows)))
     = snd (snd (read_rowdata_packet mysql_library buffered_result (connected select_1_rows)))"
proof -
  let ?b = "read_rowdata_packet mysql_library buffered_result (connected select_1_rows)"
  let ?s = "fetch_all_unbuffered mysql_library described_streaming_result
      (connected select_1_rows)"
  have a: "unbuffered_active described_streaming_result"
    by (simp add: described_streaming_result_def)
  have f: "result_fields described_streaming_result = result_fields buffered_result"
    by (simp add: described_streaming_result_def)
  have c: "connection described_streaming_result = connection buffered_result"
    by (simp add: described_streaming_result_def)
  have b: "?b = (fst ?b, fst (snd ?b), snd (snd ?b))"
    by simp
  have s: "?s = (fst ?s, fst (snd ?s), snd (snd ?s))"
    by simp
  have y: "fst ?s = Inr [[PyStr [49]]]"
    by (simp add: fetch_all_unbuffered.simps read_rowdata_packet_unbuffered_def
        read_packet_def read_packet_loop.simps readexactly_def check_packet_is_eof_def
        read_row_from_packet_def read_row_value_def length_coded_string_def
        length_encoded_integer_def described_streaming_result_def buffered_result_def
        MySQLResult_init_def select_1_field_def select_1_rows_def frame_def eof_marker_def
        connected_def new_connection_def mysql_library_def parse_eof_packet_def
        struct_unpack_def codec_decode_def str_def pack_le_4 MAX_PACKET_LEN_def Let_def)
  from streaming_and_buffered_rows [OF a f c b s] a f c y show ?thesis
    by simp
qed

text \<open>
  Where the claim as first stated fails: with two rows both modes give the same two rows,
  the buffered result counts 2 affected rows and the streaming one 1.
\<close>

theorem affected_rows_counterexample:
  "fst (fetch_all_unbuffered mysql_library described_streaming_result (connected two_rows))
     = Inr [[PyStr [49]], [PyStr [50]]]
   \<and> rows (fst (snd (read_rowdata_packet mysql_library buffered_result (connected two_rows))))
     = Some [[PyStr [49]], [PyStr [50]]]
   \<and> affected_rows (fst (snd (read_rowdata_packet mysql_library buffered_result
        (connected two_rows)))) = Some 2
   \<and> affected_rows (fst (snd (fetch_all_unbuffered mysql_library described_streaming_result
        (connected two_rows)))) = Some 1"
  by (simp add: fetch_all_unbuffered.simps read_rowdata_packet_unbuffered_def
      read_rowdata_packet_def read_rowdata_packet_loop.simps read_packet_def
      read_packet_loop.simps readexactly_def check_packet_is_eof_def read_row_from_packet_def
      read_row_value_def length_coded_string_def length_encoded_integer_def
      described_streaming_result_def buffered_result_def MySQLResult_init_def
      select_1_field_def two_rows_def frame_def eof_marker_def connected_def
      new_connection_def mysql_library_def parse_eof_packet_def struct_unpack_def
      codec_decode_def str_def pack_le_4 MAX_PACKET_LEN_def Let_def)

section \<open>A missing username\<close>













lemma ok_packet_parts:
  "check_error mysql_library ok_packet_bytes = None"
  "length ok_packet_bytes < MAX_PACKET_LEN"
  "\<not> is_eof_packet mysql_library ok_packet_bytes"
  by (simp_all add: ok_packet_bytes_def mysql_library_def MAX_PACKET_LEN_def)





section \<open>Reader and writer are set together\<close>

text \<open>
  No operation leaves a Connection with the writer set and the reader not set. Reading,
  writing, the handshake and the queries keep the writer and a reader that is set;
  \<^verbatim>\<open>connect\<close> sets both or clears both; \<^verbatim>\<open>close\<close> clears the writer; the constructor
  sets neither. So \<^verbatim>\<open>ping\<close>, \<^verbatim>\<open>query\<close> and \<^verbatim>\<open>close\<close> keep the property, and
  \<^verbatim>\<open>connect\<close> and the constructor establish it.
\<close>

lemma keeps_refl: "keeps c c"
  by (simp add: keeps_def)

lemma keeps_trans: "keeps a b \<Longrightarrow> keeps b c \<Longrightarrow> keeps a c"
  by (simp add: keeps_def)

lemma readexactly_keeps: "readexactly n c = (x, c') \<Longrightarrow> keeps c c'"
  by (auto simp: readexactly_def keeps_def split: option.splits if_splits)

lemma read_packet_loop_keeps:
  "read_packet_loop buff c = (x, c') \<Longrightarrow> keeps c c'"
proof (induction buff c rule: read_packet_loop.induct)
  case (1 buff c)
  obtain x1 c1 where r1: "readexactly 4 c = (x1, c1)"
    by (cases "readexactly 4 c")
  note k1 = readexactly_keeps [OF r1]
  show ?case
  proof (cases x1)
    case (Inl e)
    with "1.prems" r1 have "c' = c1"
      by (simp add: read_packet_loop.simps [of buff c])
    with k1 show ?thesis by simp
  next
    case (Inr hd)
    define n where "n = unpack_le (take 3 hd @ [0])"
    obtain x2 c2 where r2: "readexactly n c1 = (x2, c2)"
      by (cases "readexactly n c1")
    note k2 = keeps_trans [OF k1 readexactly_keeps [OF r2]]
    show ?thesis
    proof (cases x2)
      case (Inl e)
      with "1.prems" r1 Inr r2 have "c' = c2"
        by (simp add: read_packet_loop.simps [of buff c] n_def Let_def)
      with k2 show ?thesis by simp
    next
      case d: (Inr d)
      show ?thesis
      proof (cases "n < MAX_PACKET_LEN")
        case True
        with "1.prems" r1 Inr r2 d have "c' = c2"
          by (simp add: read_packet_loop.simps [of buff c] n_def Let_def)
        with k2 show ?thesis by simp
      next
        case False
        with "1.prems" r1 Inr r2 d have "read_packet_loop (buff @ d) c2 = (x, c')"
          by (simp add: read_packet_loop.simps [of buff c] n_def Let_def)
        with "1.IH" [OF r1 [symmetric] Inr n_def r2 [symmetric] d False]
        have "keeps c2 c'" by simp
        with k2 show ?thesis by (rule keeps_trans)
      qed
    qed
  qed
qed

lemma read_packet_keeps: "read_packet L c = (x, c') \<Longrightarrow> keeps c c'"
  by (auto simp: read_packet_def split: prod.splits sum.splits option.splits
      dest: read_packet_loop_keeps)

lemma read_field_packet_keeps: "read_field_packet L c = (x, c') \<Longrightarrow> keeps c c'"
  by (auto simp: read_field_packet_def split: prod.splits sum.splits option.splits
      dest: read_packet_loop_keeps)

lemma finish_unbuffered_query_keeps:
  "finish_unbuffered_query L r c = (x, r', c') \<Longrightarrow> keeps c c'"
proof (induction L r c arbitrary: x r' c' rule: finish_unbuffered_query.induct)
  case (1 L r c)
  note eq = "1.prems" [unfolded finish_unbuffered_query.simps [of L r c]]
  show ?case
  proof (cases "unbuffered_active r")
    case False
    with eq show ?thesis by (simp add: keeps_refl)
  next
    case act: True
    show ?thesis
    proof (cases "connection r")
      case None
      with eq act show ?thesis by (simp add: keeps_refl)
    next
      case (Some ref)
      obtain x1 c1 where rp: "read_packet L c = (x1, c1)"
        by (cases "read_packet L c")
      have s1: "keeps c c1" using rp by (rule read_packet_keeps)
      show ?thesis
      proof (cases x1)
        case (Inl e)
        with eq act Some rp have "c' = c1" by simp
        with s1 show ?thesis by simp
      next
        case (Inr packet)
        obtain x2 r1 where ck: "check_packet_is_eof L packet r = (x2, r1)"
          by (cases "check_packet_is_eof L packet r")
        show ?thesis
        proof (cases x2)
          case (Inl e)
          with eq act Some rp Inr ck have "c' = c1" by simp
          with s1 show ?thesis by simp
        next
          case b: (Inr b)
          show ?thesis
          proof (cases b)
            case True
            with eq act Some rp Inr ck b have
              "finish_unbuffered_query L (r1\<lparr>unbuffered_active := False, connection := None\<rparr>) c1
                 = (x, r', c')" by simp
            moreover from True have "b = True" by simp
            ultimately have "keeps c1 c'"
              using "1.IH"(1) [OF act Some rp [symmetric] Inr ck [symmetric] b] by blast
            with s1 show ?thesis by (rule keeps_trans)
          next
            case False
            with eq act Some rp Inr ck b have
              "finish_unbuffered_query L r1 c1 = (x, r', c')" by simp
            moreover from False have "b = False" by simp
            ultimately have "keeps c1 c'"
              using "1.IH"(2) [OF act Some rp [symmetric] Inr ck [symmetric] b] by blast
            with s1 show ?thesis by (rule keeps_trans)
          qed
        qed
      qed
    qed
  qed
qed

lemma write_bytes_keeps: "write_bytes d c = (x, c') \<Longrightarrow> keeps c c'"
  by (auto simp: write_bytes_def keeps_def split: option.splits)

lemma execute_command_loop_keeps:
  assumes "execute_command_loop seq_id sql c = (x, c')"
  shows "keeps c c'"
proof (cases "writer c = None")
  case True
  with assms have "c' = c"
    by (simp add: execute_command_loop.simps [of seq_id sql c] write_bytes_def Let_def)
  then show ?thesis by (simp add: keeps_refl)
next
  case False
  from execute_command_loop_sends [OF False, of seq_id sql] assms
  obtain fs where "c' = c\<lparr>io_trace := io_trace c @ map Send fs\<rparr>"
    by auto
  then show ?thesis by (simp add: keeps_def)
qed

lemma keeps_result [simp]: "keeps c (c'\<lparr>result := r\<rparr>) = keeps c c'"
  by (simp add: keeps_def)

lemma execute_command_keeps:
  assumes "execute_command L command sql c = (x, c')"
  shows "keeps c c'"
proof (cases "writer c = None")
  case True
  with assms show ?thesis by (simp add: execute_command_def keeps_refl)
next
  case w: False
  let ?drain = "case result c of
                 None \<Rightarrow> (Inr (), c)
               | Some r \<Rightarrow>
                   if unbuffered_active r
                   then (case finish_unbuffered_query L r c of
                           (x, r1, c1) \<Rightarrow> (x, c1\<lparr>result := Some r1\<rparr>))
                   else (Inr (), c)"
  obtain x1 c1 where d: "?drain = (x1, c1)"
    by (cases ?drain)
  have q1: "keeps c c1"
  proof (cases "result c")
    case None
    with d show ?thesis by (simp add: keeps_refl)
  next
    case (Some r)
    show ?thesis
    proof (cases "unbuffered_active r")
      case False
      with d Some show ?thesis by (simp add: keeps_refl)
    next
      case True
      obtain y r1 c0 where f: "finish_unbuffered_query L r c = (y, r1, c0)"
        by (cases "finish_unbuffered_query L r c")
      with d Some True have c1: "c1 = c0\<lparr>result := Some r1\<rparr>" by simp
      have "keeps c c0"
        using f by (rule finish_unbuffered_query_keeps)
      with c1 show ?thesis by simp
    qed
  qed
  show ?thesis
  proof (cases x1)
    case (Inl e)
    with assms w d have "c' = c1"
      unfolding execute_command_def by simp
    with q1 show ?thesis by simp
  next
    case (Inr u)
    let ?enc = "case sql of Str s \<Rightarrow> encode L (encoding c1) s | Bytes b \<Rightarrow> Inr b"
    show ?thesis
    proof (cases ?enc)
      case e: (Inl e)
      with assms w d Inr have "c' = c1"
        unfolding execute_command_def by simp
      with q1 show ?thesis by simp
    next
      case b: (Inr b)
      let ?n = "min MAX_PACKET_LEN (length b + 1)"
      let ?d = "(pack_le 4 ?n @ [command]) @ take (?n - 1) b"
      let ?c2 = "c1\<lparr>io_trace := io_trace c1 @ [Send ?d]\<rparr>"
      have w1: "writer c1 \<noteq> None" using w q1 by (simp add: keeps_def)
      have wb: "write_bytes ?d c1 = (Inr (), ?c2)"
        using w1 by (rule write_bytes_open)
      note q2 = keeps_trans [OF q1 write_bytes_keeps [OF wb]]
      have wt: "(writer c = None) = False" using w by simp
      have step: "(x, c') = (if ?n < MAX_PACKET_LEN then (Inr (), ?c2)
          else execute_command_loop 1 (drop (?n - 1) b) ?c2)"
        using assms unfolding execute_command_def d Inr
        by (simp only: wt if_False prod.case sum.case b Let_def wb)
      show ?thesis
      proof (cases "?n < MAX_PACKET_LEN")
        case True
        from step [unfolded if_P [OF True]] have "c' = ?c2" by simp
        with q2 show ?thesis by simp
      next
        case False
        from step [unfolded if_not_P [OF False]]
        have "execute_command_loop 1 (drop (?n - 1) b) ?c2 = (x, c')" by simp
        from keeps_trans [OF q2 execute_command_loop_keeps [OF this]] show ?thesis .
      qed
    qed
  qed
qed

lemma read_ok_packet_keeps:
  assumes "read_ok_packet L c = (x, c')"
  shows "keeps c c'"
proof -
  obtain x1 c1 where rp: "read_packet L c = (x1, c1)"
    by (cases "read_packet L c")
  note q = read_packet_keeps [OF rp]
  from assms rp have "c' = c1 \<or> (\<exists>st. c' = c1\<lparr>conn_server_status := st\<rparr>)"
    by (auto simp: read_ok_packet_def split: sum.splits if_splits)
  with q show ?thesis by (auto simp: keeps_def)
qed

lemma ping_try_keeps: "ping_try L c = (x, c') \<Longrightarrow> keeps c c'"
  by (auto simp: ping_try_def split: prod.splits sum.splits
      dest!: execute_command_keeps read_ok_packet_keeps intro: keeps_trans)


lemma get_descriptions_loop_keeps:
  "get_descriptions_loop L n descr r c = (x, r', c') \<Longrightarrow> keeps c c'"
proof (induction L n descr r c arbitrary: x r' c' rule: get_descriptions_loop.induct)
  case (1 L descr r c)
  then show ?case by (simp add: keeps_refl)
next
  case (2 L n descr r c)
  show ?case
  proof (cases "connection r")
    case None
    with "2.prems" show ?thesis by (simp add: keeps_refl)
  next
    case (Some ref)
    obtain x1 c1 where rp: "read_field_packet L c = (x1, c1)"
      by (cases "read_field_packet L c")
    note k1 = read_field_packet_keeps [OF rp]
    show ?thesis
    proof (cases x1)
      case (Inl e)
      with "2.prems" Some rp have "c' = c1" by simp
      with k1 show ?thesis by simp
    next
      case (Inr fd)
      show ?thesis
      proof (cases "result_fields r")
        case None
        with "2.prems" Some rp Inr have "c' = c1" by simp
        with k1 show ?thesis by simp
      next
        case fds: (Some fds)
        with "2.prems" Some rp Inr have
          "get_descriptions_loop L n (descr @ [description L fd])
             (r\<lparr>result_fields := Some (fds @ [fd])\<rparr>) c1 = (x, r', c')"
          by simp
        from "2.IH" [OF Some rp [symmetric] Inr fds this] k1 show ?thesis
          by (rule keeps_trans [rotated])
      qed
    qed
  qed
qed

lemma get_descriptions_keeps:
  "get_descriptions L r c = (x, r', c') \<Longrightarrow> keeps c c'"
  by (auto simp: get_descriptions_def Let_def keeps_refl
      split: option.splits prod.splits sum.splits if_splits
      dest!: get_descriptions_loop_keeps read_packet_keeps intro: keeps_trans)

lemma read_rowdata_packet_loop_keeps:
  "read_rowdata_packet_loop L rws r c = (x, r', c') \<Longrightarrow> keeps c c'"
proof (induction L rws r c arbitrary: x r' c' rule: read_rowdata_packet_loop.induct)
  case (1 L rws r c)
  note eq = "1.prems" [unfolded read_rowdata_packet_loop.simps [of L rws r c]]
  show ?case
  proof (cases "connection r")
    case None
    with eq show ?thesis by (simp add: keeps_refl)
  next
    case (Some ref)
    obtain x1 c1 where rp: "read_packet L c = (x1, c1)"
      by (cases "read_packet L c")
    have s1: "keeps c c1" using rp by (rule read_packet_keeps)
    show ?thesis
    proof (cases x1)
      case (Inl e)
      with eq Some rp have "c' = c1" by simp
      with s1 show ?thesis by simp
    next
      case (Inr packet)
      obtain x2 r1 where ck: "check_packet_is_eof L packet r = (x2, r1)"
        by (cases "check_packet_is_eof L packet r")
      show ?thesis
      proof (cases x2)
        case (Inl e)
        with eq Some rp Inr ck have "c' = c1" by simp
        with s1 show ?thesis by simp
      next
        case b: (Inr b)
        show ?thesis
        proof (cases b)
          case True
          with eq Some rp Inr ck b have "c' = c1" by simp
          with s1 show ?thesis by simp
        next
          case False
          show ?thesis
          proof (cases "read_row_from_packet L r1 c1 packet")
            case (Inl e)
            with False eq Some rp Inr ck b have "c' = c1" by simp
            with s1 show ?thesis by simp
          next
            case rw: (Inr rw)
            with False eq Some rp Inr ck b have
              "read_rowdata_packet_loop L (rws @ [rw]) r1 c1 = (x, r', c')" by simp
            moreover from False have "b = False" by simp
            ultimately have "keeps c1 c'"
              using "1.IH" [OF Some rp [symmetric] Inr ck [symmetric] b _ rw] by blast
            with s1 show ?thesis by (rule keeps_trans)
          qed
        qed
      qed
    qed
  qed
qed

lemma read_rowdata_packet_keeps:
  "read_rowdata_packet L r c = (x, r', c') \<Longrightarrow> keeps c c'"
  by (auto simp: read_rowdata_packet_def split: prod.splits sum.splits
      dest!: read_rowdata_packet_loop_keeps)

lemma read_result_packet_keeps:
  "read_result_packet L p r c = (x, r', c') \<Longrightarrow> keeps c c'"
  by (auto simp: read_result_packet_def keeps_refl split: prod.splits sum.splits
      dest!: get_descriptions_keeps read_rowdata_packet_keeps intro: keeps_trans)

lemma read_keeps:
  "read L r c = (x, r', c') \<Longrightarrow> keeps c c'"
  by (auto simp: read_def keeps_refl split: option.splits prod.splits sum.splits if_splits
      dest!: read_packet_keeps read_result_packet_keeps intro: keeps_trans)

lemma init_unbuffered_query_keeps:
  "init_unbuffered_query L r c = (x, r', c') \<Longrightarrow> keeps c c'"
  by (auto simp: init_unbuffered_query_def Let_def keeps_refl
      split: option.splits prod.splits sum.splits if_splits
      dest!: read_packet_keeps)

lemma read_query_result_keeps:
  "read_query_result L u c = (x, c') \<Longrightarrow> keeps c c'"
proof -
  assume a: "read_query_result L u c = (x, c')"
  obtain y r1 c1 where e: "(if u then init_unbuffered_query L MySQLResult_init c
            else read L MySQLResult_init c) = (y, r1, c1)"
    by (cases "if u then init_unbuffered_query L MySQLResult_init c
            else read L MySQLResult_init c")
  then have k: "keeps c c1"
    by (auto split: if_splits dest: init_unbuffered_query_keeps read_keeps)
  from a e have "writer c' = writer c1 \<and> reader c' = reader c1"
    by (cases y) (auto simp: read_query_result_def)
  with k show ?thesis by (simp add: keeps_def)
qed

lemma query_keeps:
  "query L sql u c = (x, c') \<Longrightarrow> keeps c c'"
  by (auto simp: query_def split: prod.splits sum.splits
      dest!: execute_command_keeps read_query_result_keeps intro: keeps_trans)

lemma commit_keeps:
  "commit L c = (x, c') \<Longrightarrow> keeps c c'"
  by (auto simp: commit_def split: prod.splits sum.splits
      dest!: execute_command_keeps read_ok_packet_keeps intro: keeps_trans)

lemma send_autocommit_mode_keeps:
  "send_autocommit_mode L c = (x, c') \<Longrightarrow> keeps c c'"
  by (auto simp: send_autocommit_mode_def split: prod.splits sum.splits
      dest!: execute_command_keeps read_ok_packet_keeps intro: keeps_trans)

lemma autocommit_keeps:
  assumes "autocommit L v c = (x, c')"
  shows "keeps c c'"
proof -
  let ?c0 = "c\<lparr>autocommit_mode := Some v\<rparr>"
  have k0: "keeps c ?c0" by (simp add: keeps_def)
  have "keeps ?c0 c'"
    using assms
    by (auto simp: autocommit_def Let_def keeps_refl split: prod.splits sum.splits if_splits
        dest!: send_autocommit_mode_keeps)
  with k0 show ?thesis by (rule keeps_trans)
qed


lemma server_information_extended_keeps:
  "server_information_extended L data i c = (x, c') \<Longrightarrow> keeps c c'"
  by (auto simp: server_information_extended_def Let_def keeps_def
      split: if_splits sum.splits prod.splits option.splits)

lemma get_server_information_keeps:
  assumes "get_server_information L c = (x, c')"
  shows "keeps c c'"
proof -
  obtain x0 c0 where rp: "read_packet L c = (x0, c0)"
    by (cases "read_packet L c")
  note k0 = read_packet_keeps [OF rp]
  have "writer c' = writer c0 \<and> reader c' = reader c0"
    using assms unfolding get_server_information_def rp
    by (auto simp: Let_def server_information_extended_def
        split: sum.splits prod.splits option.splits if_splits)
  with k0 show ?thesis by (simp add: keeps_def)
qed

lemma authentication_data_keeps:
  "authentication_data L cs ub c = Inr (data, slt, c') \<Longrightarrow> keeps c c'"
  by (auto simp: authentication_data_def Let_def keeps_def
      split: sum.splits option.splits strbytes.splits if_splits)

lemma authentication_exchange_keeps:
  "authentication_exchange L data slt c = (x, c') \<Longrightarrow> keeps c c'"
  by (auto simp: authentication_exchange_def Let_def keeps_refl
      split: sum.splits prod.splits if_splits
      dest!: write_bytes_keeps read_packet_keeps intro: keeps_trans)

lemma request_authentication_keeps:
  assumes "request_authentication L c = (x, c')"
  shows "keeps c c'"
proof -
  let ?c1 = "c\<lparr>client_flag := client_flag c OR CAPABILITIES L\<rparr>"
  note eq = assms [unfolded request_authentication_def Let_def]
  show ?thesis
  proof (cases "server_version ?c1")
    case None
    with eq have "c' = ?c1" by simp
    then show ?thesis by (simp add: keeps_def)
  next
    case (Some sv)
    let ?c2 = "if take 1 sv = str ''5''
               then ?c1\<lparr>client_flag := client_flag ?c1 OR MULTI_RESULTS L\<rparr> else ?c1"
    have k2: "keeps c ?c2" by (simp add: keeps_def)
    show ?thesis
    proof (cases "user ?c2")
      case None
      with eq Some have "c' = ?c2" by simp
      with k2 show ?thesis by simp
    next
      case u: (Some u)
      show ?thesis
      proof (cases "charset_by_name L (charset ?c2)")
        case None
        with eq Some u have "c' = ?c2" by simp
        with k2 show ?thesis by simp
      next
        case cs: (Some cs)
        let ?enc = "case u of Str s \<Rightarrow> encode L (encoding ?c2) s | Bytes b \<Rightarrow> Inr b"
        show ?thesis
        proof (cases ?enc)
          case (Inl e)
          with eq Some u cs have "c' = ?c2" by simp
          with k2 show ?thesis by simp
        next
          case ub: (Inr ub)
          let ?c3 = "?c2\<lparr>user := Some (Bytes ub)\<rparr>"
          have k3: "keeps c ?c3" by (simp add: keeps_def)
          show ?thesis
          proof (cases "authentication_data L cs ub ?c3")
            case (Inl e)
            with eq Some u cs ub have "c' = ?c3" by simp
            with k3 show ?thesis by simp
          next
            case (Inr t)
            obtain data slt c4 where t: "t = (data, slt, c4)"
              by (cases t)
            from Inr t have k4: "keeps ?c3 c4"
              by (auto dest: authentication_data_keeps)
            from eq Some u cs ub Inr t have "authentication_exchange L data slt c4 = (x, c')"
              by simp
            then have "keeps c4 c'" by (rule authentication_exchange_keeps)
            with k3 k4 show ?thesis by (blast intro: keeps_trans)
          qed
        qed
      qed
    qed
  qed
qed


lemma keeps_pairing:
  "keeps c c' \<Longrightarrow> writer c \<noteq> None \<longrightarrow> reader c \<noteq> None \<Longrightarrow>
   writer c' \<noteq> None \<longrightarrow> reader c' \<noteq> None"
  by (simp add: keeps_def)

lemma connect_body_pairing:
  assumes "connect_body L c = (x, c')"
  shows "x = Inl OSError \<or> (writer c' \<noteq> None \<and> reader c' \<noteq> None)"
proof -
  obtain x1 c1 where o: "open_connection c = (x1, c1)"
    by (cases "open_connection c")
  show ?thesis
  proof (cases x1)
    case (Inl e)
    with o have "e = OSError"
      by (auto simp: open_connection_def split: list.splits option.splits)
    with assms o Inl show ?thesis by (simp add: connect_body_def)
  next
    case (Inr u)
    with o have p1: "writer c1 \<noteq> None \<and> reader c1 \<noteq> None"
      by (auto simp: open_connection_def split: list.splits option.splits)
    have "keeps c1 c'"
      using assms unfolding connect_body_def o Inr
      by (auto simp: keeps_def split: prod.splits sum.splits option.splits
          dest!: get_server_information_keeps request_authentication_keeps query_keeps
            commit_keeps autocommit_keeps)
    with p1 show ?thesis by (simp add: keeps_def)
  qed
qed

lemma connect_pairing:
  assumes "connect L c = (x, c')"
  shows "writer c' \<noteq> None \<longrightarrow> reader c' \<noteq> None"
proof -
  obtain x1 c1 where b: "connect_body L c = (x1, c1)"
    by (cases "connect_body L c")
  from connect_body_pairing [OF b] assms b show ?thesis
    by (cases x1) (auto simp: connect_def split: if_splits)
qed

lemma ping_pairing:
  assumes "writer c \<noteq> None \<longrightarrow> reader c \<noteq> None" and "ping L reconnect c = (x, c')"
  shows "writer c' \<noteq> None \<longrightarrow> reader c' \<noteq> None"
proof -
  have once: "writer a' \<noteq> None \<longrightarrow> reader a' \<noteq> None"
    if "writer a \<noteq> None \<longrightarrow> reader a \<noteq> None" and "ping_once L a = (y, a')" for a y a'
  proof (cases "writer a \<noteq> None \<and> reader a = None")
    case True
    with that show ?thesis by (simp add: ping_once_def)
  next
    case False
    then have f: "(writer a \<noteq> None \<and> reader a = None) = False" by blast
    from that(2) have "ping_try L a = (y, a')" unfolding ping_once_def f by simp
    from keeps_pairing [OF ping_try_keeps [OF this] that(1)] show ?thesis .
  qed
  show ?thesis
  proof (cases reconnect)
    case False
    with assms(2) have "ping_once L c = (x, c')" by (simp add: ping_def)
    from once [OF assms(1) this] show ?thesis .
  next
    case True
    have inv: "(writer c \<noteq> None \<and> reader c = None) = False"
      using assms(1) by blast
    obtain y c2 where t: "ping_try L c = (y, c2)"
      by (cases "ping_try L c")
    note p2 = keeps_pairing [OF ping_try_keeps [OF t] assms(1)]
    show ?thesis
    proof (cases y)
      case (Inr u)
      with assms(2) True t have "c' = c2" unfolding ping_def inv by simp
      with p2 show ?thesis by simp
    next
      case (Inl e)
      obtain z c3 where k: "connect L c2 = (z, c3)"
        by (cases "connect L c2")
      note p3 = connect_pairing [OF k]
      show ?thesis
      proof (cases z)
        case e': (Inl e')
        with assms(2) True t Inl k have "c' = c3" unfolding ping_def inv by simp
        with p3 show ?thesis by simp
      next
        case (Inr u)
        with assms(2) True t Inl k have "ping_once L c3 = (x, c')"
          unfolding ping_def inv by simp
        from once [OF p3 this] show ?thesis .
      qed
    qed
  qed
qed

lemma close_pairing:
  "close c = (x, c') \<Longrightarrow> writer c \<noteq> None \<longrightarrow> reader c \<noteq> None \<Longrightarrow>
   writer c' \<noteq> None \<longrightarrow> reader c' \<noteq> None"
  by (auto simp: close_def split: option.splits)

lemma Connection_init_pairing:
  "Connection_init L a net = Inr c \<Longrightarrow> writer c = None \<and> reader c = None"
  by (auto simp: Connection_init_def Let_def split: sum.splits prod.splits option.splits)

lemma query_pairing:
  "query L sql u c = (x, c') \<Longrightarrow> writer c \<noteq> None \<longrightarrow> reader c \<noteq> None \<Longrightarrow>
   writer c' \<noteq> None \<longrightarrow> reader c' \<noteq> None"
  by (rule keeps_pairing [OF query_keeps])


section \<open>The reconnect policy of ping\<close>















end
